theory Spec2Isabelle
  imports Main "HOL-Library.Word"
begin

section \<open>Values shared by client and server\<close>

text \<open>
  Identifiers (user, chat, message ids) and ISO timestamps are JavaScript strings.
  A JavaScript value that may be \<open>null\<close> or \<open>undefined\<close> is an \<open>option\<close>
  whose \<open>None\<close> stands for both, except where the source tells them apart.
\<close>

type_synonym user_id = string
type_synonym chat_id = string
type_synonym message_id = string

datatype media_type = Image | Audio | Video

record media =
  mtype :: media_type
  url :: string

record sender_info =
  sender_id :: user_id
  firstName :: string
  lastName :: string

text \<open>
  \<open>MessageResponse\<close> of \<open>client/src/types/api\<close>: the message as the REST layer
  answers it. \<open>MessageWithSenderResponse\<close> is the same object with \<open>sender\<close> present;
  the handlers of \<open>MainChat.tsx\<close> build it by setting that field.
\<close>

record message_response =
  msg_id :: message_id
  chatId :: chat_id
  senderId :: user_id
  sender :: "sender_info option"
  content :: string
  msg_media :: "media option"
  editedAt :: "string option"
  deletedFor :: "user_id list"
  timestamp :: string

record app_user =
  user_id :: user_id
  user_firstName :: string
  user_lastName :: string

text \<open>Decimal rendering of a number, as a template literal does for \<open>Date.now()\<close>.\<close>

definition digit_char :: "nat \<Rightarrow> char" where
  "digit_char d = ''0123456789'' ! d"

function showNat :: "nat \<Rightarrow> string" where
  "showNat n = (if n < 10 then [digit_char n] else showNat (n div 10) @ [digit_char (n mod 10)])"
  by pat_completeness auto
termination
  by (relation "measure id") auto

text \<open>JavaScript truthiness of a string that may be absent: \<open>!s\<close>.\<close>

definition falsy_string :: "string option \<Rightarrow> bool" where
  "falsy_string s = (case s of None \<Rightarrow> True | Some v \<Rightarrow> v = [])"

section \<open>The chat view: message list of \<open>MainChat.tsx\<close>\<close>

text \<open>
  \<open>handleSendMessage\<close> (lines 92--179) is asynchronous: it runs up to its first
  \<open>await\<close>, and resumes when the upload and the REST call settle. Each piece between
  two awaits is one state update of \<open>messages\<close>, modelled as one function on the list;
  other handlers may run in between.
\<close>

definition tempIdOf :: "nat \<Rightarrow> message_id" where
  "tempIdOf now = ''temp-'' @ showNat now"

definition userSender :: "app_user \<Rightarrow> sender_info" where
  "userSender u = \<lparr>sender_id = user_id u, firstName = user_firstName u, lastName = user_lastName u\<rparr>"

text \<open>Lines 96--111: the optimistic entry.\<close>

definition tempMessage :: "chat_id \<Rightarrow> app_user \<Rightarrow> string \<Rightarrow> nat \<Rightarrow> string \<Rightarrow> message_response" where
  "tempMessage selectedChatId u cont now isoNow =
     \<lparr>msg_id = tempIdOf now, chatId = selectedChatId, senderId = user_id u,
      sender = Some (userSender u), content = cont, msg_media = None, editedAt = None,
      deletedFor = [], timestamp = isoNow\<rparr>"

text \<open>
  Lines 94--113: nothing happens without a selected chat or a user; otherwise the
  optimistic entry is appended. \<open>now\<close> is \<open>Date.now()\<close>, \<open>isoNow\<close> is
  \<open>new Date().toISOString()\<close>.
\<close>

definition handleSendMessage_start ::
  "chat_id option \<Rightarrow> app_user option \<Rightarrow> string \<Rightarrow> nat \<Rightarrow> string \<Rightarrow>
   message_response list \<Rightarrow> message_response list" where
  "handleSendMessage_start selectedChatId usr cont now isoNow prev =
     (if falsy_string selectedChatId then prev
      else case usr of
        None \<Rightarrow> prev
      | Some u \<Rightarrow> prev @ [tempMessage (the selectedChatId) u cont now isoNow])"

text \<open>Lines 143--156: the REST call succeeded with \<open>response.data\<close>.\<close>

definition handleSendMessage_response ::
  "message_id \<Rightarrow> app_user \<Rightarrow> message_response \<Rightarrow> message_response list \<Rightarrow> message_response list" where
  "handleSendMessage_response tempId u data prev =
     map (\<lambda>m. if msg_id m = tempId then data\<lparr>sender := Some (userSender u)\<rparr> else m) prev"

text \<open>Lines 132 and 175: the upload or the REST call failed.\<close>

definition handleSendMessage_failed :: "message_id \<Rightarrow> message_response list \<Rightarrow> message_response list" where
  "handleSendMessage_failed tempId prev = filter (\<lambda>m. msg_id m \<noteq> tempId) prev"

text \<open>Lines 205--219: the updater the new-message handler gives to \<open>setMessages\<close>.\<close>

definition onNewMessage :: "message_response \<Rightarrow> message_response list \<Rightarrow> message_response list" where
  "onNewMessage message prev =
     (if list_ex (\<lambda>m. msg_id m = msg_id message) prev then prev
      else prev @ [message\<lparr>sender :=
             Some (case sender message of
                     Some s \<Rightarrow> s
                   | None \<Rightarrow> \<lparr>sender_id = senderId message, firstName = [], lastName = []\<rparr>)\<rparr>])"

text \<open>Lines 293--305: the edited and deleted handlers.\<close>

definition onMessageEdited :: "message_id \<Rightarrow> string \<Rightarrow> string \<Rightarrow> message_response list \<Rightarrow> message_response list" where
  "onMessageEdited mid newContent at prev =
     map (\<lambda>m. if msg_id m = mid then m\<lparr>content := newContent, editedAt := Some at\<rparr> else m) prev"

definition onMessageDeleted :: "message_id \<Rightarrow> message_response list \<Rightarrow> message_response list" where
  "onMessageDeleted mid prev = filter (\<lambda>m. msg_id m \<noteq> mid) prev"

text \<open>How many entries of the list carry an id.\<close>

definition entries_with :: "message_id \<Rightarrow> message_response list \<Rightarrow> nat" where
  "entries_with mid ms = length (filter (\<lambda>m. msg_id m = mid) ms)"

section \<open>The client connection manager: \<open>utils/socket.ts\<close>\<close>

text \<open>
  The socket.io client is a library: the model keeps of a socket handle its identity,
  its \<open>connected\<close> flag and the event names that have a listener. What the manager
  does to the outside world is recorded in the state: every \<open>io(...)\<close> call (a
  network attempt), every \<open>socket.disconnect()\<close>, every \<open>socket.emit\<close>, every
  pending \<open>setTimeout\<close> that will call \<open>connect()\<close>, and the console.
\<close>

datatype console_line = ConsoleLog string | ConsoleWarn string | ConsoleError string

datatype js_error = JsError string

datatype payload = NoPayload | ChatPayload chat_id | OtherPayload string

record io_socket =
  sock_id :: nat
  connected :: bool
  listeners :: "string list"

record io_call =
  io_auth_token :: string
  io_query_token :: string
  io_transports :: "string list"
  io_reconnection :: bool
  io_reconnectionAttempts :: nat
  io_reconnectionDelay :: nat
  io_reconnectionDelayMax :: nat
  io_timeout :: nat

record socket_manager =
  socket :: "io_socket option"
  reconnectAttempts :: nat
  maxReconnectAttempts :: nat
  reconnectDelay :: nat
  isIntentionalDisconnect :: bool
  accessToken :: "string option"
  opened :: "io_call list"
  torn_down :: "nat list"
  reconnectTimers :: "nat list"
  sent :: "(nat \<times> string \<times> payload) list"
  console :: "console_line list"

text \<open>Lines 18--22: the field initialisers of the class; nothing has happened yet.\<close>

definition new_SocketManager :: "string option \<Rightarrow> socket_manager" where
  "new_SocketManager tok =
     \<lparr>socket = None, reconnectAttempts = 0, maxReconnectAttempts = 5, reconnectDelay = 1000,
      isIntentionalDisconnect = False, accessToken = tok, opened = [], torn_down = [],
      reconnectTimers = [], sent = [], console = []\<rparr>"

text \<open>\<open>this.socket?.connected\<close>, also \<open>isConnected()\<close> (lines 118--120).\<close>

definition isConnected :: "socket_manager \<Rightarrow> bool" where
  "isConnected m = (case socket m of None \<Rightarrow> False | Some s \<Rightarrow> connected s)"

text \<open>Lines 56--104: the eight listeners \<open>setupEventHandlers\<close> registers, in order.\<close>

definition manager_events :: "string list" where
  "manager_events = [''connect'', ''disconnect'', ''connect_error'', ''error'', ''reconnect'',
     ''reconnect_attempt'', ''reconnect_error'', ''reconnect_failed'']"

text \<open>Lines 36--49: the options of the \<open>io\<close> call.\<close>

definition io_options :: "socket_manager \<Rightarrow> string \<Rightarrow> io_call" where
  "io_options m tok =
     \<lparr>io_auth_token = tok, io_query_token = tok, io_transports = [''websocket'', ''polling''],
      io_reconnection = True, io_reconnectionAttempts = maxReconnectAttempts m,
      io_reconnectionDelay = reconnectDelay m, io_reconnectionDelayMax = 5000, io_timeout = 10000\<rparr>"

text \<open>
  Lines 24--54. The handle of the \<open>n\<close>-th \<open>io\<close> call has identity \<open>n\<close>; it is
  not connected when \<open>io\<close> returns (the library connects asynchronously).
\<close>

definition connect :: "socket_manager \<Rightarrow> (js_error + io_socket) \<times> socket_manager" where
  "connect m =
     (if isConnected m then (Inr (the (socket m)), m)
      else if falsy_string (accessToken m)
        then (Inl (JsError ''No authentication token available''), m)
      else
        let s = \<lparr>sock_id = length (opened m), connected = False, listeners = manager_events\<rparr>
        in (Inr s, m\<lparr>isIntentionalDisconnect := False, socket := Some s,
                     opened := opened m @ [io_options m (the (accessToken m))]\<rparr>))"

text \<open>Lines 64--72: the listener of \<open>disconnect\<close>.\<close>

definition on_disconnect :: "string \<Rightarrow> socket_manager \<Rightarrow> socket_manager" where
  "on_disconnect reason m =
     (let m1 = m\<lparr>console := console m @ [ConsoleLog ''Socket.io disconnected'']\<rparr>
      in if reason = ''io server disconnect'' \<and> \<not> isIntentionalDisconnect m1
         then m1\<lparr>reconnectTimers := reconnectTimers m1 @ [reconnectDelay m1]\<rparr>
         else m1)"

text \<open>
  The library's \<open>socket.disconnect()\<close> on the manager's handle: a connected socket
  closes and tells its listeners \<open>disconnect\<close> with reason \<open>io client disconnect\<close>
  before the call returns; a socket that is not connected just stops.
\<close>

definition socket_disconnect :: "socket_manager \<Rightarrow> socket_manager" where
  "socket_disconnect m =
     (case socket m of
        None \<Rightarrow> m
      | Some s \<Rightarrow>
          let m1 = m\<lparr>torn_down := torn_down m @ [sock_id s],
                      socket := Some (s\<lparr>connected := False\<rparr>)\<rparr>
          in if connected s then on_disconnect ''io client disconnect'' m1 else m1)"

text \<open>Lines 106--112.\<close>

definition disconnect :: "socket_manager \<Rightarrow> socket_manager" where
  "disconnect m =
     (case socket m of
        None \<Rightarrow> m
      | Some s \<Rightarrow> (socket_disconnect (m\<lparr>isIntentionalDisconnect := True\<rparr>))\<lparr>socket := None\<rparr>)"

text \<open>Lines 59--62: the listener of \<open>connect\<close>.\<close>

definition on_connect :: "socket_manager \<Rightarrow> socket_manager" where
  "on_connect m = m\<lparr>console := console m @ [ConsoleLog ''Socket.io connected''],
                    reconnectAttempts := 0\<rparr>"

text \<open>Lines 74--82: the listener of \<open>connect_error\<close>.\<close>

definition on_connect_error :: "socket_manager \<Rightarrow> socket_manager" where
  "on_connect_error m =
     (let m1 = m\<lparr>console := console m @ [ConsoleError ''Socket.io connection error''],
                 reconnectAttempts := reconnectAttempts m + 1\<rparr>
      in if reconnectAttempts m1 \<ge> maxReconnectAttempts m1
         then disconnect (m1\<lparr>console := console m1 @ [ConsoleError ''Max reconnection attempts reached'']\<rparr>)
         else m1)"

text \<open>Lines 88--91: the listener of \<open>reconnect\<close>.\<close>

definition on_reconnect :: "socket_manager \<Rightarrow> socket_manager" where
  "on_reconnect m = m\<lparr>console := console m @ [ConsoleLog ''Socket.io reconnected''],
                      reconnectAttempts := 0\<rparr>"

text \<open>
  The library establishing the connection of the manager's handle: the handle becomes
  connected, then the \<open>connect\<close> listener runs.
\<close>

definition socket_connected :: "socket_manager \<Rightarrow> socket_manager" where
  "socket_connected m = on_connect (m\<lparr>socket := map_option (\<lambda>s. s\<lparr>connected := True\<rparr>) (socket m)\<rparr>)"

text \<open>The timer armed at line 68 fires: it is no longer pending, and \<open>connect()\<close> runs.\<close>

definition fire_reconnect_timer :: "socket_manager \<Rightarrow> socket_manager" where
  "fire_reconnect_timer m =
     (case reconnectTimers m of
        [] \<Rightarrow> m
      | d # ds \<Rightarrow> snd (connect (m\<lparr>reconnectTimers := ds\<rparr>)))"

text \<open>Lines 122--128.\<close>

definition emit :: "string \<Rightarrow> payload \<Rightarrow> socket_manager \<Rightarrow> socket_manager" where
  "emit event data m =
     (if isConnected m
      then m\<lparr>sent := sent m @ [(sock_id (the (socket m)), event, data)]\<rparr>
      else m\<lparr>console := console m @ [ConsoleWarn (''Socket not connected, cannot emit event: '' @ event)]\<rparr>)"

text \<open>\<open>n\<close> connection errors in a row.\<close>

fun connect_errors :: "nat \<Rightarrow> socket_manager \<Rightarrow> socket_manager" where
  "connect_errors 0 m = m"
| "connect_errors (Suc n) m = on_connect_error (connect_errors n m)"

section \<open>The client event service: \<open>services/socketService.ts\<close>\<close>

text \<open>
  A JavaScript \<open>Set\<close> of handler functions keeps insertion order and holds a function
  at most once; a handler is known by its identity, a number here.
\<close>

type_synonym handler = nat

definition set_add :: "handler \<Rightarrow> handler list \<Rightarrow> handler list" where
  "set_add h hs = (if h \<in> set hs then hs else hs @ [h])"

definition set_delete :: "handler \<Rightarrow> handler list \<Rightarrow> handler list" where
  "set_delete h hs = removeAll h hs"

datatype 'a js_optional = Undefined | Null | Value 'a

text \<open>The \<open>data\<close> objects of the wire events (lines 4--48).\<close>

record new_message_data =
  ev_messageId :: message_id
  ev_chatId :: chat_id
  ev_senderId :: user_id
  ev_content :: string
  ev_timestamp :: string
  ev_media :: "media js_optional"

record edited_message_data =
  ed_messageId :: message_id
  ed_chatId :: chat_id
  ed_content :: string
  ed_editedAt :: string

record deleted_message_data =
  del_messageId :: message_id
  del_chatId :: chat_id

datatype presence = Online | Offline

record user_status =
  st_userId :: user_id
  st_status :: presence
  st_timestamp :: string

record typing_event =
  ty_userId :: user_id
  ty_chatId :: chat_id
  ty_isTyping :: bool

record socket_service =
  manager :: socket_manager
  messageHandlers :: "handler list"
  userStatusHandlers :: "handler list"
  typingHandlers :: "handler list"
  messageEditedHandlers :: "handler list"
  messageDeletedHandlers :: "handler list"

definition new_SocketService :: "string option \<Rightarrow> socket_service" where
  "new_SocketService tok =
     \<lparr>manager = new_SocketManager tok, messageHandlers = [], userStatusHandlers = [],
      typingHandlers = [], messageEditedHandlers = [], messageDeletedHandlers = []\<rparr>"

text \<open>Lines 63--104: the six listeners \<open>initialize\<close> adds to the handle it gets.\<close>

definition service_events :: "string list" where
  "service_events = [''message:new'', ''message:edited'', ''message:deleted'', ''user:online'',
     ''user:offline'', ''user:typing'']"

definition initialize :: "socket_service \<Rightarrow> (js_error + unit) \<times> socket_service" where
  "initialize svc =
     (case connect (manager svc) of
        (Inl e, m) \<Rightarrow> (Inl e, svc\<lparr>manager := m\<rparr>)
      | (Inr s, m) \<Rightarrow>
          (Inr (), svc\<lparr>manager := m\<lparr>socket := Some (s\<lparr>listeners := listeners s @ service_events\<rparr>)\<rparr>\<rparr>))"

text \<open>Lines 67--76: the view-model message built from a pushed \<open>message:new\<close>.\<close>

definition pushed_message :: "new_message_data \<Rightarrow> message_response" where
  "pushed_message d =
     \<lparr>msg_id = ev_messageId d, chatId = ev_chatId d, senderId = ev_senderId d, sender = None,
      content = ev_content d,
      msg_media = (case ev_media d of Value x \<Rightarrow> Some x | Undefined \<Rightarrow> None | Null \<Rightarrow> None),
      editedAt = None, deletedFor = [], timestamp = ev_timestamp d\<rparr>"

text \<open>
  The listeners themselves: each returns the calls it makes, as pairs of a handler and
  the argument the handler is called with, in the order of the calls.
\<close>

definition on_message_new :: "socket_service \<Rightarrow> new_message_data \<Rightarrow> (handler \<times> message_response) list" where
  "on_message_new svc d = map (\<lambda>h. (h, pushed_message d)) (messageHandlers svc)"

definition on_message_edited :: "socket_service \<Rightarrow> edited_message_data \<Rightarrow> (handler \<times> edited_message_data) list" where
  "on_message_edited svc d = map (\<lambda>h. (h, d)) (messageEditedHandlers svc)"

definition on_message_deleted :: "socket_service \<Rightarrow> deleted_message_data \<Rightarrow> (handler \<times> deleted_message_data) list" where
  "on_message_deleted svc d = map (\<lambda>h. (h, d)) (messageDeletedHandlers svc)"

definition on_user_online :: "socket_service \<Rightarrow> user_status \<Rightarrow> (handler \<times> user_status) list" where
  "on_user_online svc d = map (\<lambda>h. (h, d\<lparr>st_status := Online\<rparr>)) (userStatusHandlers svc)"

definition on_user_offline :: "socket_service \<Rightarrow> user_status \<Rightarrow> (handler \<times> user_status) list" where
  "on_user_offline svc d = map (\<lambda>h. (h, d\<lparr>st_status := Offline\<rparr>)) (userStatusHandlers svc)"

definition on_user_typing :: "socket_service \<Rightarrow> typing_event \<Rightarrow> (handler \<times> typing_event) list" where
  "on_user_typing svc d = map (\<lambda>h. (h, d)) (typingHandlers svc)"

text \<open>Lines 106--113.\<close>

definition service_disconnect :: "socket_service \<Rightarrow> socket_service" where
  "service_disconnect svc =
     svc\<lparr>manager := disconnect (manager svc), messageHandlers := [], userStatusHandlers := [],
         typingHandlers := [], messageEditedHandlers := [], messageDeletedHandlers := []\<rparr>"

text \<open>Lines 115--138: subscribing; the closure each returns is the matching \<open>off\<close>.\<close>

definition onNewMessage_subscribe :: "handler \<Rightarrow> socket_service \<Rightarrow> socket_service" where
  "onNewMessage_subscribe h svc = svc\<lparr>messageHandlers := set_add h (messageHandlers svc)\<rparr>"

definition onNewMessage_unsubscribe :: "handler \<Rightarrow> socket_service \<Rightarrow> socket_service" where
  "onNewMessage_unsubscribe h svc = svc\<lparr>messageHandlers := set_delete h (messageHandlers svc)\<rparr>"

definition onMessageEdited_subscribe :: "handler \<Rightarrow> socket_service \<Rightarrow> socket_service" where
  "onMessageEdited_subscribe h svc = svc\<lparr>messageEditedHandlers := set_add h (messageEditedHandlers svc)\<rparr>"

definition onMessageDeleted_subscribe :: "handler \<Rightarrow> socket_service \<Rightarrow> socket_service" where
  "onMessageDeleted_subscribe h svc = svc\<lparr>messageDeletedHandlers := set_add h (messageDeletedHandlers svc)\<rparr>"

definition onUserStatus_subscribe :: "handler \<Rightarrow> socket_service \<Rightarrow> socket_service" where
  "onUserStatus_subscribe h svc = svc\<lparr>userStatusHandlers := set_add h (userStatusHandlers svc)\<rparr>"

definition onTyping_subscribe :: "handler \<Rightarrow> socket_service \<Rightarrow> socket_service" where
  "onTyping_subscribe h svc = svc\<lparr>typingHandlers := set_add h (typingHandlers svc)\<rparr>"

text \<open>Lines 140--146.\<close>

definition emitTyping :: "chat_id \<Rightarrow> socket_service \<Rightarrow> socket_service" where
  "emitTyping c svc = svc\<lparr>manager := emit ''user:typing'' (ChatPayload c) (manager svc)\<rparr>"

definition emitStopTyping :: "chat_id \<Rightarrow> socket_service \<Rightarrow> socket_service" where
  "emitStopTyping c svc = svc\<lparr>manager := emit ''user:stop-typing'' (ChatPayload c) (manager svc)\<rparr>"

section \<open>The typing indicator of \<open>MainChat.tsx\<close>\<close>

text \<open>
  Lines 257--291. The state is the React state \<open>typingUsers\<close>, the map
  \<open>typingTimeoutRef.current\<close> from user to timer handle, and the timers of the event
  loop that are armed and not yet fired or cleared: handle, the time it is due (in
  milliseconds) and the user its callback closes over. \<open>setTimeout\<close> hands out a fresh
  handle; a handle is always truthy.
\<close>

record typing_view =
  typingUsers :: "user_id set"
  typingTimeoutRef :: "user_id \<rightharpoonup> nat"
  pending :: "(nat \<times> nat \<times> user_id) list"
  nextHandle :: nat
  clock :: nat

definition typing_view_init :: typing_view where
  "typing_view_init = \<lparr>typingUsers = {}, typingTimeoutRef = Map.empty, pending = [],
                        nextHandle = 1, clock = 0\<rparr>"

definition clearTimeout :: "nat \<Rightarrow> typing_view \<Rightarrow> typing_view" where
  "clearTimeout h v = v\<lparr>pending := filter (\<lambda>t. fst t \<noteq> h) (pending v)\<rparr>"

definition setTimeout :: "user_id \<Rightarrow> nat \<Rightarrow> typing_view \<Rightarrow> nat \<times> typing_view" where
  "setTimeout u delay v =
     (nextHandle v, v\<lparr>pending := pending v @ [(nextHandle v, clock v + delay, u)],
                      nextHandle := Suc (nextHandle v)\<rparr>)"

text \<open>Lines 268--275: the callback of the timer.\<close>

definition typing_timeout :: "user_id \<Rightarrow> typing_view \<Rightarrow> typing_view" where
  "typing_timeout u v = v\<lparr>typingUsers := typingUsers v - {u},
                          typingTimeoutRef := (typingTimeoutRef v)(u := None)\<rparr>"

definition onTyping :: "chat_id option \<Rightarrow> typing_event \<Rightarrow> typing_view \<Rightarrow> typing_view" where
  "onTyping selectedChatId ev v =
     (if Some (ty_chatId ev) \<noteq> selectedChatId then v
      else if ty_isTyping ev then
        let v1 = v\<lparr>typingUsers := insert (ty_userId ev) (typingUsers v)\<rparr>;
            v2 = (case typingTimeoutRef v1 (ty_userId ev) of
                    Some h \<Rightarrow> clearTimeout h v1
                  | None \<Rightarrow> v1);
            armed = setTimeout (ty_userId ev) 5000 v2
        in (snd armed)\<lparr>typingTimeoutRef := (typingTimeoutRef (snd armed))(ty_userId ev \<mapsto> fst armed)\<rparr>
      else
        let v1 = v\<lparr>typingUsers := typingUsers v - {ty_userId ev}\<rparr>
        in case typingTimeoutRef v1 (ty_userId ev) of
             Some h \<Rightarrow> (clearTimeout h v1)\<lparr>typingTimeoutRef := (typingTimeoutRef v1)(ty_userId ev := None)\<rparr>
           | None \<Rightarrow> v1)"

text \<open>
  Time passes: the timers due within the next \<open>d\<close> milliseconds fire, in the order they
  were armed (every delay is the same, so that is the order they are due), and leave
  the event loop.
\<close>

definition due_timers :: "nat \<Rightarrow> typing_view \<Rightarrow> (nat \<times> nat \<times> user_id) list" where
  "due_timers d v = filter (\<lambda>t. fst (snd t) \<le> clock v + d) (pending v)"

definition elapse :: "nat \<Rightarrow> typing_view \<Rightarrow> typing_view" where
  "elapse d v =
     fold (\<lambda>t. typing_timeout (snd (snd t))) (due_timers d v)
       (v\<lparr>clock := clock v + d,
          pending := filter (\<lambda>t. \<not> fst (snd t) \<le> clock v + d) (pending v)\<rparr>)"

text \<open>What the view goes through: typing events from the service, and time.\<close>

datatype typing_input = Signal typing_event | Elapse nat

fun typing_step :: "chat_id option \<Rightarrow> typing_input \<Rightarrow> typing_view \<Rightarrow> typing_view" where
  "typing_step sel (Signal ev) v = onTyping sel ev v"
| "typing_step sel (Elapse d) v = elapse d v"

definition typing_run :: "chat_id option \<Rightarrow> typing_input list \<Rightarrow> typing_view" where
  "typing_run sel tr = fold (typing_step sel) tr typing_view_init"

text \<open>
  The time since the most recent \<open>isTyping = true\<close> signal of user \<open>u\<close> for the open
  chat, read off the inputs; \<open>None\<close> when there was no such signal.
\<close>

fun since_signal_step :: "chat_id option \<Rightarrow> user_id \<Rightarrow> typing_input \<Rightarrow> nat option \<Rightarrow> nat option" where
  "since_signal_step sel u (Signal ev) acc =
     (if Some (ty_chatId ev) = sel \<and> ty_userId ev = u \<and> ty_isTyping ev then Some 0 else acc)"
| "since_signal_step sel u (Elapse d) acc = map_option (\<lambda>e. e + d) acc"

definition since_signal :: "chat_id option \<Rightarrow> user_id \<Rightarrow> typing_input list \<Rightarrow> nat option" where
  "since_signal sel u tr = fold (since_signal_step sel u) tr None"

definition timers_of :: "user_id \<Rightarrow> typing_view \<Rightarrow> (nat \<times> nat \<times> user_id) list" where
  "timers_of u v = filter (\<lambda>t. snd (snd t) = u) (pending v)"

text \<open>
  Lines 307--318: the cleanup of the effect, as far as the typing indicator goes. Every
  timer whose handle is in the map is cleared and the map is emptied; \<open>typingUsers\<close>
  is React state and is not touched. The effect depends on \<open>user\<close> and
  \<open>selectedChatId\<close> (line 322): when either changes the cleanup runs and the effect
  subscribes again, with the state as the cleanup left it. Selecting a chat also
  empties \<open>typingUsers\<close> (line 80); a change of \<open>user\<close> does not.
\<close>

definition effect_cleanup :: "typing_view \<Rightarrow> typing_view" where
  "effect_cleanup v =
     v\<lparr>pending := filter (\<lambda>t. fst t \<notin> ran (typingTimeoutRef v)) (pending v),
       typingTimeoutRef := Map.empty\<rparr>"

text \<open>Lines 75--84, \<open>handleChatSelect\<close>, as far as the typing indicator goes.\<close>

definition handleChatSelect_typing :: "typing_view \<Rightarrow> typing_view" where
  "handleChatSelect_typing v = v\<lparr>typingUsers := {}\<rparr>"

text \<open>
  What holds of every view the handler and the timers can reach: the map
  \<open>typingTimeoutRef\<close> holds exactly the handles of the armed timers, each under the
  user its callback clears; handles are not reused; an armed timer is not yet due; and
  a user shown as typing has a timer. The second predicate ties each armed timer to
  the inputs: it is due 5000 ms after the latest typing signal of its user.
\<close>

definition typing_inv :: "typing_view \<Rightarrow> bool" where
  "typing_inv v =
     ((\<forall>a h. (typingTimeoutRef v a = Some h) = (\<exists>due. (h, due, a) \<in> set (pending v))) \<and>
      distinct (map fst (pending v)) \<and>
      (\<forall>t \<in> set (pending v). fst t < nextHandle v \<and> clock v < fst (snd t)) \<and>
      (\<forall>u \<in> typingUsers v. typingTimeoutRef v u \<noteq> None))"

definition typing_timed :: "chat_id option \<Rightarrow> typing_input list \<Rightarrow> typing_view \<Rightarrow> bool" where
  "typing_timed sel tr v =
     (\<forall>t \<in> set (pending v). \<exists>e. since_signal sel (snd (snd t)) tr = Some e \<and>
         fst (snd t) + e = clock v + 5000)"

section \<open>The REST message routes: \<open>server/src/routes/messages.ts\<close>\<close>

text \<open>
  A JavaScript string is a list of UTF-16 code units; \<open>length\<close> counts them, as
  \<open>.length\<close> does. A \<open>Types.ObjectId\<close> is known by the 24 lower-case hexadecimal
  digits its \<open>toString()\<close> gives; a request names one by any spelling the driver
  accepts. The collections are lists of documents in insertion order. Dates are
  milliseconds since the epoch.

  What the routes take from outside the file is a parameter: the validity test
  \<open>Types.ObjectId.isValid\<close>; the object id that the \<open>Types.ObjectId\<close> constructor
  and the casts of \<open>findById\<close> and \<open>findByIdAndDelete\<close> make of a string that passed the
  test; \<open>toISOString\<close>; the two readings of the clock a request makes; the \<open>_id\<close> the
  database gives a new document; and whether \<open>getSocketHandler()\<close> returns a handler.
  The authenticated user id is the string \<open>authMiddleware\<close> leaves in \<open>req.user\<close>;
  each route hands it to the \<open>Types.ObjectId\<close> constructor before anything else, and
  the constructor throws on a string the validity test refuses.
  Database calls are taken to succeed. A media object's \<open>metadata\<close> is carried along
  unread and left out here.
\<close>

type_synonym js_string = "16 word list"

datatype object_id = ObjectId string

fun oid_toString :: "object_id \<Rightarrow> string" where
  "oid_toString (ObjectId h) = h"

record req_media =
  rm_type :: "string option"
  rm_url :: "js_string option"

record stored_message =
  m_id :: object_id
  m_chatId :: object_id
  m_senderId :: object_id
  m_content :: js_string
  m_media :: "req_media option"
  m_editedAt :: "int option"
  m_deletedFor :: "object_id list"
  m_timestamp :: int

record last_message =
  lm_content :: js_string
  lm_senderId :: object_id
  lm_timestamp :: int

record chat_doc =
  c_id :: object_id
  participants :: "object_id list"
  lastMessage :: "last_message option"

record user_doc =
  u_id :: object_id
  u_firstName :: string
  u_lastName :: string

record db =
  messages :: "stored_message list"
  chats :: "chat_doc list"
  users :: "user_doc list"

record env =
  isValidObjectId :: "string \<Rightarrow> bool"
  castObjectId :: "string \<Rightarrow> object_id"
  toISOString :: "int \<Rightarrow> string"
  now :: int
  now_later :: int
  newObjectId :: object_id
  socketHandler :: bool

text \<open>
  What a route throws to the error handler: the HTTP errors of the routes, the
  \<open>TypeError\<close> of JavaScript, and \<open>BSONError\<close>, which the \<open>Types.ObjectId\<close>
  constructor throws on a string that is not an object id.
\<close>

datatype http_error =
    BadRequest string | Forbidden string | NotFound string | TypeError string | BSONError

text \<open>
  The payloads handed to the socket handler, field by field as the routes build them:
  ids and timestamps are strings, the content is the stored content.
\<close>

datatype outbound_event =
    BroadcastNewMessage string string string js_string string
  | BroadcastEditedMessage string string js_string string
  | BroadcastDeletedMessage string string

datatype db_write =
    CreateMessage stored_message
  | UpdateLastMessage object_id last_message
  | SaveMessage stored_message
  | DeleteMessage object_id

datatype effect = Wrote db_write | Broadcast outbound_event

record listed_message =
  lmsg :: stored_message
  lsender :: user_doc

datatype response =
    MessageSent stored_message
  | MessageUpdated object_id js_string "int option"
  | MessageDeleted
  | MessagesRetrieved nat nat nat nat "listed_message list"

text \<open>
  What a route leaves behind: the answer (an error thrown to the error handler, or the
  JSON response), the database, and what it did in order.
\<close>

record outcome =
  answer :: "http_error + response"
  db_after :: db
  effects :: "effect list"

text \<open>A value of the JSON request body; \<open>JOther\<close> is any array or object.\<close>

datatype json = JNull | JBool bool | JNum int | JStr js_string | JOther

text \<open>
  \<open>String.prototype.trim\<close>: it strips the white space and line terminators of
  ECMAScript from both ends, that is TAB, LF, VT, FF, CR, SPACE, NO-BREAK SPACE,
  U+1680, U+2000 to U+200A, U+2028, U+2029, U+202F, U+205F, U+3000 and U+FEFF.
\<close>

definition is_ws :: "16 word \<Rightarrow> bool" where
  "is_ws c = (c \<in> set [0x0009, 0x000A, 0x000B, 0x000C, 0x000D, 0x0020, 0x00A0, 0x1680,
                        0x2028, 0x2029, 0x202F, 0x205F, 0x3000, 0xFEFF]
              \<or> (0x2000 \<le> c \<and> c \<le> 0x200A))"

definition js_trim :: "js_string \<Rightarrow> js_string" where
  "js_trim s = rev (dropWhile is_ws (rev (dropWhile is_ws s)))"

text \<open>JavaScript truthiness of a string of the body that may be absent.\<close>

definition falsy_js :: "js_string option \<Rightarrow> bool" where
  "falsy_js s = (case s of None \<Rightarrow> True | Some v \<Rightarrow> v = [])"

text \<open>The code units of the literal \<open>'[Media]'\<close>.\<close>

definition media_placeholder :: js_string where
  "media_placeholder = [0x5B, 0x4D, 0x65, 0x64, 0x69, 0x61, 0x5D]"

definition findMessageById :: "object_id \<Rightarrow> db \<Rightarrow> stored_message option" where
  "findMessageById i d = find (\<lambda>m. m_id m = i) (messages d)"

definition findChatById :: "object_id \<Rightarrow> db \<Rightarrow> chat_doc option" where
  "findChatById i d = find (\<lambda>c. c_id c = i) (chats d)"

definition findUserById :: "object_id \<Rightarrow> db \<Rightarrow> user_doc option" where
  "findUserById i d = find (\<lambda>u. u_id u = i) (users d)"

definition saveMessage :: "stored_message \<Rightarrow> db \<Rightarrow> db" where
  "saveMessage m d = d\<lparr>messages := map (\<lambda>x. if m_id x = m_id m then m else x) (messages d)\<rparr>"

definition createMessage :: "stored_message \<Rightarrow> db \<Rightarrow> db" where
  "createMessage m d = d\<lparr>messages := messages d @ [m]\<rparr>"

definition deleteMessageById :: "object_id \<Rightarrow> db \<Rightarrow> db" where
  "deleteMessageById i d = d\<lparr>messages := filter (\<lambda>m. m_id m \<noteq> i) (messages d)\<rparr>"

definition updateLastMessage :: "object_id \<Rightarrow> last_message \<Rightarrow> db \<Rightarrow> db" where
  "updateLastMessage i lm d =
     d\<lparr>chats := map (\<lambda>c. if c_id c = i then c\<lparr>lastMessage := Some lm\<rparr> else c) (chats d)\<rparr>"

definition throw :: "db \<Rightarrow> http_error \<Rightarrow> outcome" where
  "throw d e = \<lparr>answer = Inl e, db_after = d, effects = []\<rparr>"

text \<open>The \<open>if (socketHandler)\<close> guard around each broadcast.\<close>

definition broadcast :: "env \<Rightarrow> outbound_event \<Rightarrow> effect list" where
  "broadcast e ev = (if socketHandler e then [Broadcast ev] else [])"

text \<open>
  Line 148, \<open>content?.trim() || ''\<close>: an absent or null content gives the empty string,
  a string is trimmed, and on any other value the call of \<open>trim\<close> throws a TypeError
  (\<open>None\<close> here).
\<close>

definition trimmed_content :: "json option \<Rightarrow> js_string option" where
  "trimmed_content c =
     (case c of
        None \<Rightarrow> Some []
      | Some JNull \<Rightarrow> Some []
      | Some (JStr s) \<Rightarrow> Some (js_trim s)
      | Some other \<Rightarrow> None)"

text \<open>Lines 159--171: the checks on a media object of the request.\<close>

definition media_error :: "req_media \<Rightarrow> http_error option" where
  "media_error md =
     (if falsy_string (rm_type md) \<or> the (rm_type md) \<notin> set [''image'', ''audio'', ''video'']
        then Some (BadRequest ''Invalid media type. Must be image, audio, or video'')
      else if falsy_js (rm_url md) then Some (BadRequest ''Media URL is required'')
      else if length (the (rm_url md)) > 1000
        then Some (BadRequest ''Media URL must not exceed 1000 characters'')
      else None)"

text \<open>Lines 130--238: \<open>POST /api/messages\<close>.\<close>

definition post_message ::
  "env \<Rightarrow> db \<Rightarrow> string \<Rightarrow> string option \<Rightarrow> json option \<Rightarrow> req_media option \<Rightarrow> outcome" where
  "post_message e d currentUserId chatIdReq contentReq mediaReq =
     (if \<not> isValidObjectId e currentUserId then throw d BSONError
      else let currentUserObjectId = castObjectId e currentUserId
      in if falsy_string chatIdReq then throw d (BadRequest ''chatId is required'')
      else if \<not> isValidObjectId e (the chatIdReq) then throw d (BadRequest ''Invalid chat ID format'')
      else case trimmed_content contentReq of
        None \<Rightarrow> throw d (TypeError ''content.trim is not a function'')
      | Some trimmedContent \<Rightarrow>
          if trimmedContent = [] \<and> mediaReq = None
            then throw d (BadRequest ''Either content or media must be provided'')
          else if trimmedContent \<noteq> [] \<and> length trimmedContent > 5000
            then throw d (BadRequest ''Content must not exceed 5000 characters'')
          else (case (case mediaReq of None \<Rightarrow> None | Some md \<Rightarrow> media_error md) of
             Some err \<Rightarrow> throw d err
           | None \<Rightarrow>
               (case findChatById (castObjectId e (the chatIdReq)) d of
                  None \<Rightarrow> throw d (NotFound ''Chat not found'')
                | Some chat \<Rightarrow>
                    if currentUserObjectId \<notin> set (participants chat)
                      then throw d (Forbidden ''You are not a participant of this chat'')
                    else
                      let newMessage = \<lparr>m_id = newObjectId e,
                                          m_chatId = castObjectId e (the chatIdReq),
                                          m_senderId = currentUserObjectId,
                                          m_content = trimmedContent,
                                          m_media = mediaReq, m_editedAt = None, m_deletedFor = [],
                                          m_timestamp = now e\<rparr>;
                          lm = \<lparr>lm_content = (if trimmedContent = [] then media_placeholder
                                               else trimmedContent),
                                lm_senderId = currentUserObjectId, lm_timestamp = now_later e\<rparr>
                      in \<lparr>answer = Inr (MessageSent newMessage),
                          db_after = updateLastMessage (castObjectId e (the chatIdReq)) lm
                                       (createMessage newMessage d),
                          effects = [Wrote (CreateMessage newMessage),
                                     Wrote (UpdateLastMessage (castObjectId e (the chatIdReq)) lm)]
                            @ broadcast e (BroadcastNewMessage (oid_toString (m_id newMessage))
                                 (oid_toString (m_chatId newMessage))
                                 (oid_toString (m_senderId newMessage)) (m_content newMessage)
                                 (toISOString e (m_timestamp newMessage)))\<rparr>)))"

text \<open>A query parameter read with \<open>Number(...)\<close>: an integer, or anything else.\<close>

datatype qnum = QInt int | QOther

text \<open>Lines 307--418: \<open>GET /api/messages\<close>, newest first.\<close>

definition visible_to :: "object_id \<Rightarrow> object_id \<Rightarrow> db \<Rightarrow> stored_message list" where
  "visible_to u c d = filter (\<lambda>m. m_chatId m = c \<and> u \<notin> set (m_deletedFor m)) (messages d)"

definition populate :: "db \<Rightarrow> stored_message list \<Rightarrow> listed_message list option" where
  "populate d ms =
     (if list_all (\<lambda>m. findUserById (m_senderId m) d \<noteq> None) ms
      then Some (map (\<lambda>m. \<lparr>lmsg = m, lsender = the (findUserById (m_senderId m) d)\<rparr>) ms)
      else None)"

definition get_messages ::
  "env \<Rightarrow> db \<Rightarrow> string \<Rightarrow> string option \<Rightarrow> qnum option \<Rightarrow> qnum option \<Rightarrow> outcome" where
  "get_messages e d currentUserId chatIdQ limitRaw offsetRaw =
     (if \<not> isValidObjectId e currentUserId then throw d BSONError
      else let currentUserObjectId = castObjectId e currentUserId
      in if falsy_string chatIdQ then throw d (BadRequest ''chatId query parameter is required'')
      else if \<not> isValidObjectId e (the chatIdQ) then throw d (BadRequest ''Invalid chat ID format'')
      else if (case limitRaw of None \<Rightarrow> False | Some QOther \<Rightarrow> True | Some (QInt n) \<Rightarrow> n < 1 \<or> n > 100)
        then throw d (BadRequest ''limit must be an integer between 1 and 100'')
      else if (case offsetRaw of None \<Rightarrow> False | Some QOther \<Rightarrow> True | Some (QInt n) \<Rightarrow> n < 0)
        then throw d (BadRequest ''offset must be a non-negative integer'')
      else
        let cid = castObjectId e (the chatIdQ);
            limit = (case limitRaw of Some (QInt n) \<Rightarrow> nat n | _ \<Rightarrow> 50);
            offset = (case offsetRaw of Some (QInt n) \<Rightarrow> nat n | _ \<Rightarrow> 0)
        in case findChatById cid d of
             None \<Rightarrow> throw d (NotFound ''Chat not found'')
           | Some chat \<Rightarrow>
               if currentUserObjectId \<notin> set (participants chat)
                 then throw d (Forbidden ''You are not a participant of this chat'')
               else
                 let total = length (visible_to currentUserObjectId cid d);
                     page = take limit (drop offset
                              (sort_key (\<lambda>m. - m_timestamp m) (visible_to currentUserObjectId cid d)))
                 in (case populate d page of
                       None \<Rightarrow> throw d (TypeError ''Cannot read properties of null'')
                     | Some listed \<Rightarrow>
                         \<lparr>answer = Inr (MessagesRetrieved total (length listed) limit offset listed),
                          db_after = d, effects = []\<rparr>))"

text \<open>Lines 481--562: \<open>PATCH /api/messages/:messageId\<close>.\<close>

definition fifteenMinutesInMs :: int where
  "fifteenMinutesInMs = 15 * 60 * 1000"

definition patch_message :: "env \<Rightarrow> db \<Rightarrow> string \<Rightarrow> string \<Rightarrow> json option \<Rightarrow> outcome" where
  "patch_message e d currentUserId messageId contentReq =
     (if \<not> isValidObjectId e currentUserId then throw d BSONError
      else let currentUserObjectId = castObjectId e currentUserId
      in if \<not> isValidObjectId e messageId then throw d (BadRequest ''Invalid message ID format'')
      else case contentReq of
        None \<Rightarrow> throw d (BadRequest ''content is required'')
      | Some (JStr c) \<Rightarrow>
          if c = [] then throw d (BadRequest ''content is required'')
          else if js_trim c = [] then throw d (BadRequest ''content cannot be empty'')
          else if length (js_trim c) > 5000
            then throw d (BadRequest ''Content must not exceed 5000 characters'')
          else (case findMessageById (castObjectId e messageId) d of
             None \<Rightarrow> throw d (NotFound ''Message not found'')
           | Some message \<Rightarrow>
               if m_senderId message \<noteq> currentUserObjectId
                 then throw d (Forbidden ''You can only edit your own messages'')
               else if now e - m_timestamp message > fifteenMinutesInMs
                 then throw d (Forbidden ''Messages can only be edited within 15 minutes of sending'')
               else
                 let edited = message\<lparr>m_content := js_trim c, m_editedAt := Some (now_later e)\<rparr>
                 in \<lparr>answer = Inr (MessageUpdated (m_id edited) (m_content edited) (m_editedAt edited)),
                     db_after = saveMessage edited d,
                     effects = [Wrote (SaveMessage edited)]
                       @ broadcast e (BroadcastEditedMessage (oid_toString (m_id edited))
                            (oid_toString (m_chatId edited)) (m_content edited)
                            (toISOString e (now_later e)))\<rparr>)
      | Some other \<Rightarrow> throw d (BadRequest ''content is required''))"

text \<open>
  Lines 620--713: \<open>DELETE /api/messages/:messageId\<close>. The broadcast of a hard delete
  carries the \<open>messageId\<close> of the request as it was spelled there (line 687).
\<close>

definition twentyFourHoursInMs :: int where
  "twentyFourHoursInMs = 24 * 60 * 60 * 1000"

definition delete_message :: "env \<Rightarrow> db \<Rightarrow> string \<Rightarrow> string \<Rightarrow> string option \<Rightarrow> outcome" where
  "delete_message e d currentUserId messageId forAll =
     (if \<not> isValidObjectId e currentUserId then throw d BSONError
      else let currentUserObjectId = castObjectId e currentUserId
      in if \<not> isValidObjectId e messageId then throw d (BadRequest ''Invalid message ID format'')
      else case findMessageById (castObjectId e messageId) d of
        None \<Rightarrow> throw d (NotFound ''Message not found'')
      | Some message \<Rightarrow>
          (case findChatById (m_chatId message) d of
             None \<Rightarrow> throw d (NotFound ''Chat not found'')
           | Some chat \<Rightarrow>
               if currentUserObjectId \<notin> set (participants chat)
                 then throw d (Forbidden ''You are not a participant of this chat'')
               else if forAll = Some ''true'' then
                 (if m_senderId message \<noteq> currentUserObjectId
                    then throw d (Forbidden ''Only the sender can delete message for everyone'')
                  else if now e - m_timestamp message > twentyFourHoursInMs
                    then throw d (Forbidden ''Messages can only be deleted for everyone within 24 hours of sending'')
                  else \<lparr>answer = Inr MessageDeleted,
                        db_after = deleteMessageById (castObjectId e messageId) d,
                        effects = [Wrote (DeleteMessage (castObjectId e messageId))]
                          @ broadcast e (BroadcastDeletedMessage messageId
                               (oid_toString (m_chatId message)))\<rparr>)
               else if currentUserObjectId \<in> set (m_deletedFor message)
                 then \<lparr>answer = Inr MessageDeleted, db_after = d, effects = []\<rparr>
               else
                 let hidden = message\<lparr>m_deletedFor := m_deletedFor message @ [currentUserObjectId]\<rparr>
                 in \<lparr>answer = Inr MessageDeleted, db_after = saveMessage hidden d,
                     effects = [Wrote (SaveMessage hidden)]\<rparr>))"

text \<open>The four routes of the router, as one request type.\<close>

datatype request =
    PostMessage "string option" "json option" "req_media option"
  | GetMessages "string option" "qnum option" "qnum option"
  | PatchMessage string "json option"
  | DeleteMessageReq string "string option"

fun route :: "env \<Rightarrow> db \<Rightarrow> string \<Rightarrow> request \<Rightarrow> outcome" where
  "route e d u (PostMessage c t md) = post_message e d u c t md"
| "route e d u (GetMessages c l off) = get_messages e d u c l off"
| "route e d u (PatchMessage i c) = patch_message e d u i c"
| "route e d u (DeleteMessageReq i fa) = delete_message e d u i fa"

definition broadcasts :: "outcome \<Rightarrow> outbound_event list" where
  "broadcasts r = concat (map (\<lambda>x. case x of Broadcast ev \<Rightarrow> [ev] | Wrote w \<Rightarrow> []) (effects r))"

section \<open>Concrete inputs\<close>

text \<open>
  A user sends ``hi'' at millisecond 1000 into chat \<open>c1\<close>; the server stores it as
  \<open>m1\<close>, answers the REST call with \<open>ex_data\<close> and pushes \<open>ex_push\<close>.
\<close>

definition ex_user :: app_user where
  "ex_user = \<lparr>user_id = ''u1'', user_firstName = ''Ann'', user_lastName = ''Lee''\<rparr>"

definition ex_sent :: "message_response list" where
  "ex_sent = handleSendMessage_start (Some ''c1'') (Some ex_user) ''hi'' 1000 ''t0'' []"

definition ex_data :: message_response where
  "ex_data = \<lparr>msg_id = ''m1'', chatId = ''c1'', senderId = ''u1'', sender = None,
     content = ''hi'', msg_media = None, editedAt = None, deletedFor = [], timestamp = ''t1''\<rparr>"

definition ex_push :: new_message_data where
  "ex_push = \<lparr>ev_messageId = ''m1'', ev_chatId = ''c1'', ev_senderId = ''u1'',
     ev_content = ''hi'', ev_timestamp = ''t1'', ev_media = Undefined\<rparr>"

text \<open>
  A manager with a stored token after \<open>connect()\<close>, before and after the library has
  established the connection; a service that was initialised and has two subscribers.
\<close>

definition ex_connecting :: socket_manager where
  "ex_connecting = snd (connect (new_SocketManager (Some ''tok'')))"

definition ex_connected :: socket_manager where
  "ex_connected = socket_connected ex_connecting"

definition ex_service :: socket_service where
  "ex_service = onTyping_subscribe 2 (onNewMessage_subscribe 1
     (snd (initialize (new_SocketService (Some ''tok'')))))"

text \<open>
  A server with a registered socket handler, whose clock reads 60000 and then 60001.
  A string of 24 hexadecimal digits is a valid object id, and names the object id of its
  lower-case spelling. Alice and Bob share a chat that holds one message, ``hi'', sent
  by Alice at millisecond 1000. Requests spell the message id in upper case.
\<close>

definition ex_alice :: string where "ex_alice = ''507f1f77bcf86cd799439011''"

definition ex_bob :: string where "ex_bob = ''507f1f77bcf86cd799439012''"

definition ex_chat :: string where "ex_chat = ''507f1f77bcf86cd799439013''"

definition ex_msg :: string where "ex_msg = ''507f1f77bcf86cd799439015''"

definition ex_msg_upper :: string where "ex_msg_upper = ''507F1F77BCF86CD799439015''"

definition hex24 :: "string \<Rightarrow> bool" where
  "hex24 s = (length s = 24 \<and> list_all (\<lambda>c. c \<in> set ''0123456789abcdefABCDEF'') s)"

definition lower_hex :: "char \<Rightarrow> char" where
  "lower_hex c =
     (if c = CHR ''A'' then CHR ''a'' else if c = CHR ''B'' then CHR ''b''
      else if c = CHR ''C'' then CHR ''c'' else if c = CHR ''D'' then CHR ''d''
      else if c = CHR ''E'' then CHR ''e'' else if c = CHR ''F'' then CHR ''f'' else c)"

definition ex_cast :: "string \<Rightarrow> object_id" where
  "ex_cast s = ObjectId (map lower_hex s)"

definition ex_env :: env where
  "ex_env = \<lparr>isValidObjectId = hex24, castObjectId = ex_cast,
     toISOString = (\<lambda>t. ''ms'' @ showNat (nat t)),
     now = 60000, now_later = 60001, newObjectId = ObjectId ''507f1f77bcf86cd799439016'',
     socketHandler = True\<rparr>"

definition ex_stored :: stored_message where
  "ex_stored = \<lparr>m_id = ObjectId ex_msg, m_chatId = ObjectId ex_chat,
     m_senderId = ObjectId ex_alice, m_content = [0x68, 0x69],
     m_media = None, m_editedAt = None, m_deletedFor = [], m_timestamp = 1000\<rparr>"

definition ex_chat_doc :: chat_doc where
  "ex_chat_doc = \<lparr>c_id = ObjectId ex_chat, participants = [ObjectId ex_alice, ObjectId ex_bob],
     lastMessage = None\<rparr>"

definition ex_db :: db where
  "ex_db = \<lparr>messages = [ex_stored], chats = [ex_chat_doc],
     users = [\<lparr>u_id = ObjectId ex_alice, u_firstName = ''Ann'', u_lastName = ''Lee''\<rparr>,
              \<lparr>u_id = ObjectId ex_bob, u_firstName = ''Bob'', u_lastName = ''Ray''\<rparr>]\<rparr>"

text \<open>
  The edit request sends NO-BREAK SPACE, ``hi!'', SPACE; the create request sends
  SPACE, ``hello'', SPACE.
\<close>

definition ex_edit :: js_string where
  "ex_edit = [0x00A0, 0x68, 0x69, 0x21, 0x20]"

definition ex_edited :: js_string where
  "ex_edited = [0x68, 0x69, 0x21]"

definition ex_hello :: js_string where
  "ex_hello = [0x20, 0x68, 0x65, 0x6C, 0x6C, 0x6F, 0x20]"

definition ex_new :: stored_message where
  "ex_new = \<lparr>m_id = ObjectId ''507f1f77bcf86cd799439016'', m_chatId = ObjectId ex_chat,
     m_senderId = ObjectId ex_alice, m_content = [0x68, 0x65, 0x6C, 0x6C, 0x6F],
     m_media = None, m_editedAt = None, m_deletedFor = [], m_timestamp = 60000\<rparr>"

text \<open>User \<open>u1\<close> signals typing in the open chat \<open>c1\<close>; three seconds pass.\<close>

definition ex_trace :: "typing_input list" where
  "ex_trace = [Signal \<lparr>ty_userId = ''u1'', ty_chatId = ''c1'', ty_isTyping = True\<rparr>, Elapse 3000]"

section \<open>Properties of the message list\<close>

lemma showNat_example: "showNat 1000 = ''1000''"
  by (simp add: digit_char_def)

lemma onNewMessage_present:
  "list_ex (\<lambda>x. msg_id x = msg_id m) prev \<Longrightarrow> onNewMessage m prev = prev"
  by (simp add: onNewMessage_def)

lemma onNewMessage_has_id:
  "list_ex (\<lambda>x. msg_id x = msg_id m) (onNewMessage m prev)"
  by (simp add: onNewMessage_def list_ex_iff)

lemma entries_with_onNewMessage:
  "entries_with (msg_id m) (onNewMessage m prev) =
     (if list_ex (\<lambda>x. msg_id x = msg_id m) prev then entries_with (msg_id m) prev else 1)"
  by (auto simp add: onNewMessage_def entries_with_def list_ex_iff filter_empty_conv)

text \<open>
  Claim C1, at the input where it fails. The user sends ``hi''; the optimistic entry
  \<open>temp-1000\<close> is appended. The pushed \<open>message:new\<close> of the stored message \<open>m1\<close>
  reaches the new-message handler before the REST call resolves: no entry has id
  \<open>m1\<close> yet, so the echo is appended. The REST response then replaces the optimistic
  entry by the confirmed message, and the list holds two entries with id \<open>m1\<close>.
\<close>

theorem C1_echo_before_response_duplicates:
  "entries_with ''m1''
     (handleSendMessage_response (tempIdOf 1000) ex_user ex_data
        (onNewMessage (pushed_message ex_push) ex_sent)) = 2"
  by (simp add: entries_with_def handleSendMessage_response_def onNewMessage_def
      pushed_message_def ex_push_def ex_sent_def handleSendMessage_start_def falsy_string_def
      tempMessage_def tempIdOf_def ex_user_def ex_data_def digit_char_def userSender_def)

text \<open>In the other order the same input ends with the confirmed message alone.\<close>

lemma response_before_echo_example:
  "onNewMessage (pushed_message ex_push)
     (handleSendMessage_response (tempIdOf 1000) ex_user ex_data ex_sent) =
   [ex_data\<lparr>sender := Some (userSender ex_user)\<rparr>]"
  by (simp add: entries_with_def handleSendMessage_response_def onNewMessage_def
      pushed_message_def ex_push_def ex_sent_def handleSendMessage_start_def falsy_string_def
      tempMessage_def tempIdOf_def ex_user_def ex_data_def digit_char_def userSender_def)

text \<open>
  The same for any list and any send. When neither the temporary id nor the confirmed
  id occurs in the list before the send, the REST response followed by the echo ends
  with the confirmed message in place of the optimistic entry; the echo followed by the
  REST response ends with two entries under the confirmed id.
\<close>

lemma response_keeps_others:
  "\<forall>x \<in> set prev. msg_id x \<noteq> tempId \<Longrightarrow> handleSendMessage_response tempId u data prev = prev"
  by (induction prev) (simp_all add: handleSendMessage_response_def)

lemma response_before_echo_single:
  assumes fresh_temp: "\<forall>x \<in> set prev. msg_id x \<noteq> tempId"
    and temp: "msg_id temp = tempId"
    and echo: "msg_id echo = msg_id data"
  shows "onNewMessage echo (handleSendMessage_response tempId u data (prev @ [temp]))
           = prev @ [data\<lparr>sender := Some (userSender u)\<rparr>]"
proof -
  have "handleSendMessage_response tempId u data (prev @ [temp])
      = handleSendMessage_response tempId u data prev @ [data\<lparr>sender := Some (userSender u)\<rparr>]"
    using temp by (simp add: handleSendMessage_response_def)
  then have r: "handleSendMessage_response tempId u data (prev @ [temp])
      = prev @ [data\<lparr>sender := Some (userSender u)\<rparr>]"
    by (simp add: response_keeps_others [OF fresh_temp])
  show ?thesis
    unfolding r using echo by (simp add: onNewMessage_def)
qed

lemma echo_before_response_duplicates:
  assumes fresh_temp: "\<forall>x \<in> set prev. msg_id x \<noteq> tempId"
    and fresh_real: "\<forall>x \<in> set prev. msg_id x \<noteq> msg_id data"
    and temp: "msg_id temp = tempId"
    and echo: "msg_id echo = msg_id data"
    and differ: "msg_id data \<noteq> tempId"
  shows "entries_with (msg_id data)
           (handleSendMessage_response tempId u data (onNewMessage echo (prev @ [temp]))) = 2"
proof -
  let ?echo' = "echo\<lparr>sender := Some (case sender echo of Some s \<Rightarrow> s
      | None \<Rightarrow> \<lparr>sender_id = senderId echo, firstName = [], lastName = []\<rparr>)\<rparr>"
  have absent: "\<not> list_ex (\<lambda>m. msg_id m = msg_id echo) (prev @ [temp])"
    using fresh_real temp echo differ by (auto simp add: list_ex_iff)
  then have a: "onNewMessage echo (prev @ [temp]) = prev @ [temp, ?echo']"
    by (simp add: onNewMessage_def)
  have b: "handleSendMessage_response tempId u data (prev @ [temp, ?echo'])
      = handleSendMessage_response tempId u data prev @ [data\<lparr>sender := Some (userSender u)\<rparr>, ?echo']"
    using temp echo differ by (simp add: handleSendMessage_response_def)
  have c: "filter (\<lambda>m. msg_id m = msg_id data) prev = []"
    using fresh_real by (simp add: filter_empty_conv)
  show ?thesis
    unfolding a b response_keeps_others [OF fresh_temp]
    using echo by (simp add: entries_with_def c)
qed

text \<open>
  Claim C3. A second \<open>message:new\<close> with the id of one already handled leaves the
  message list as it is; when the list held the id at most once before, it holds it
  exactly once after both deliveries.
\<close>

theorem C3_new_message_idempotent:
  "msg_id m' = msg_id m \<Longrightarrow>
     onNewMessage m' (onNewMessage m prev) = onNewMessage m prev \<and>
     (entries_with (msg_id m) prev \<le> 1 \<longrightarrow>
        entries_with (msg_id m) (onNewMessage m' (onNewMessage m prev)) = 1)"
proof -
  assume same: "msg_id m' = msg_id m"
  have present: "list_ex (\<lambda>x. msg_id x = msg_id m') (onNewMessage m prev)"
    using onNewMessage_has_id [of m prev] same by simp
  then have twice: "onNewMessage m' (onNewMessage m prev) = onNewMessage m prev"
    by (rule onNewMessage_present)
  have "entries_with (msg_id m) prev \<le> 1 \<longrightarrow> entries_with (msg_id m) (onNewMessage m prev) = 1"
  proof
    assume le: "entries_with (msg_id m) prev \<le> 1"
    show "entries_with (msg_id m) (onNewMessage m prev) = 1"
    proof (cases "list_ex (\<lambda>x. msg_id x = msg_id m) prev")
      case True
      then have "filter (\<lambda>x. msg_id x = msg_id m) prev \<noteq> []"
        by (auto simp add: list_ex_iff filter_empty_conv)
      then have "entries_with (msg_id m) prev \<noteq> 0"
        by (simp add: entries_with_def)
      with le True show ?thesis
        by (simp add: entries_with_onNewMessage)
    next
      case False
      then show ?thesis by (simp add: entries_with_onNewMessage)
    qed
  qed
  with twice show ?thesis by simp
qed

theorem C3_new_message_idempotent_witness:
  "onNewMessage (pushed_message ex_push) (onNewMessage (pushed_message ex_push) []) =
     onNewMessage (pushed_message ex_push) [] \<and>
   entries_with ''m1'' (onNewMessage (pushed_message ex_push) (onNewMessage (pushed_message ex_push) [])) = 1"
proof -
  have id: "msg_id (pushed_message ex_push) = ''m1''"
    by (simp add: pushed_message_def ex_push_def)
  have le: "entries_with ''m1'' [] \<le> 1"
    by (simp add: entries_with_def)
  from C3_new_message_idempotent [of "pushed_message ex_push" "pushed_message ex_push" "[]"] id le
  show ?thesis by auto
qed

text \<open>
  Claim C10. The \<open>message:new\<close> listener calls every subscribed handler once, each with
  the same message; that message has \<open>editedAt\<close> null, \<open>deletedFor\<close> empty, and as
  media the media of the wire payload, or null when the payload has none.
\<close>

theorem C10_pushed_message_fresh:
  "map fst (on_message_new svc d) = messageHandlers svc \<and>
   map snd (on_message_new svc d) = replicate (length (messageHandlers svc)) (pushed_message d) \<and>
   editedAt (pushed_message d) = None \<and>
   deletedFor (pushed_message d) = [] \<and>
   msg_media (pushed_message d) = (case ev_media d of Value x \<Rightarrow> Some x | Undefined \<Rightarrow> None | Null \<Rightarrow> None)"
  by (simp add: on_message_new_def pushed_message_def comp_def map_replicate_const)

section \<open>Properties of the connection manager and the event service\<close>

lemma ex_connecting_eq:
  "ex_connecting = (new_SocketManager (Some ''tok''))
     \<lparr>isIntentionalDisconnect := False,
      socket := Some \<lparr>sock_id = 0, connected = False, listeners = manager_events\<rparr>,
      opened := [io_options (new_SocketManager (Some ''tok'')) ''tok'']\<rparr>"
  by (simp add: ex_connecting_def connect_def isConnected_def new_SocketManager_def
      falsy_string_def Let_def)

lemma ex_connected_isConnected: "isConnected ex_connected"
  by (simp add: ex_connected_def ex_connecting_eq socket_connected_def on_connect_def isConnected_def)

lemma ex_service_socket: "socket (manager ex_service) \<noteq> None"
  by (simp add: ex_service_def onTyping_subscribe_def onNewMessage_subscribe_def initialize_def
      new_SocketService_def connect_def isConnected_def new_SocketManager_def falsy_string_def Let_def)

lemma ex_service_handlers: "messageHandlers ex_service = [1]"
  by (simp add: ex_service_def onTyping_subscribe_def onNewMessage_subscribe_def initialize_def
      new_SocketService_def connect_def isConnected_def new_SocketManager_def falsy_string_def Let_def
      set_add_def)

theorem C10_pushed_message_fresh_witness:
  "map fst (on_message_new ex_service ex_push) = [1] \<and>
   map snd (on_message_new ex_service ex_push) = [pushed_message ex_push] \<and>
   editedAt (pushed_message ex_push) = None \<and>
   deletedFor (pushed_message ex_push) = [] \<and>
   msg_media (pushed_message ex_push) = None"
proof -
  have md: "ev_media ex_push = Undefined"
    by (simp add: ex_push_def)
  from C10_pushed_message_fresh [of ex_service ex_push] ex_service_handlers md
  show ?thesis by simp
qed

text \<open>
  Claim C4. \<open>connect()\<close> on a manager whose socket is connected returns that socket
  and changes nothing. Otherwise, with no stored access token (none, or the empty
  string) it throws and changes nothing: no \<open>io\<close> call is made. Only with a token and no
  connected socket does it make one \<open>io\<close> call.
\<close>

theorem C4_connect_idempotent_fail_fast:
  "(isConnected m \<longrightarrow> connect m = (Inr (the (socket m)), m)) \<and>
   (\<not> isConnected m \<and> falsy_string (accessToken m) \<longrightarrow>
      connect m = (Inl (JsError ''No authentication token available''), m)) \<and>
   (\<not> isConnected m \<and> \<not> falsy_string (accessToken m) \<longrightarrow>
      length (opened (snd (connect m))) = Suc (length (opened m)))"
  by (simp add: connect_def Let_def)

theorem C4_connect_idempotent_fail_fast_witness:
  "connect ex_connected = (Inr (the (socket ex_connected)), ex_connected) \<and>
   connect (new_SocketManager None) =
     (Inl (JsError ''No authentication token available''), new_SocketManager None)"
proof -
  have a: "\<not> isConnected (new_SocketManager None)"
    by (simp add: isConnected_def new_SocketManager_def)
  have b: "falsy_string (accessToken (new_SocketManager None))"
    by (simp add: falsy_string_def new_SocketManager_def)
  from C4_connect_idempotent_fail_fast [of ex_connected] ex_connected_isConnected
  have "connect ex_connected = (Inr (the (socket ex_connected)), ex_connected)"
    by blast
  moreover from C4_connect_idempotent_fail_fast [of "new_SocketManager None"] a b
  have "connect (new_SocketManager None) =
     (Inl (JsError ''No authentication token available''), new_SocketManager None)"
    by blast
  ultimately show ?thesis by blast
qed

text \<open>
  Claim C7. \<open>emit\<close> returns a state and nothing else: it has no error to throw and
  nothing to wait for. Without a connected socket it adds one warning to the console
  and sends nothing; with one, it sends the event and the payload as given.
  \<open>emitTyping\<close> and \<open>emitStopTyping\<close> are \<open>emit\<close> of \<open>user:typing\<close> and
  \<open>user:stop-typing\<close>.
\<close>

theorem C7_emit_without_connection:
  "(\<not> isConnected m \<longrightarrow>
      emit ev data m = m\<lparr>console := console m @ [ConsoleWarn (''Socket not connected, cannot emit event: '' @ ev)]\<rparr> \<and>
      sent (emit ev data m) = sent m \<and> opened (emit ev data m) = opened m) \<and>
   (isConnected m \<longrightarrow>
      emit ev data m = m\<lparr>sent := sent m @ [(sock_id (the (socket m)), ev, data)]\<rparr>) \<and>
   manager (emitTyping c svc) = emit ''user:typing'' (ChatPayload c) (manager svc) \<and>
   manager (emitStopTyping c svc) = emit ''user:stop-typing'' (ChatPayload c) (manager svc)"
  by (simp add: emit_def emitTyping_def emitStopTyping_def)

theorem C7_emit_without_connection_witness:
  "sent (emit ''user:typing'' (ChatPayload ''c1'') (new_SocketManager None)) = [] \<and>
   sent (emit ''user:typing'' (ChatPayload ''c1'') ex_connecting) = [] \<and>
   sent (emit ''user:typing'' (ChatPayload ''c1'') ex_connected)
     = [(sock_id (the (socket ex_connected)), ''user:typing'', ChatPayload ''c1'')]"
proof -
  have a: "\<not> isConnected (new_SocketManager None)"
    by (simp add: isConnected_def new_SocketManager_def)
  have b: "\<not> isConnected ex_connecting"
    by (simp add: isConnected_def ex_connecting_eq)
  have s0: "sent (new_SocketManager None) = []"
    by (simp add: new_SocketManager_def)
  have s1: "sent ex_connecting = []"
    by (simp add: ex_connecting_eq new_SocketManager_def)
  have s2: "sent ex_connected = []"
    by (simp add: ex_connected_def socket_connected_def on_connect_def s1)
  from C7_emit_without_connection [of "new_SocketManager None" "''user:typing''" "ChatPayload ''c1''"] a s0
  have "sent (emit ''user:typing'' (ChatPayload ''c1'') (new_SocketManager None)) = []"
    by simp
  moreover from C7_emit_without_connection [of ex_connecting "''user:typing''" "ChatPayload ''c1''"] b s1
  have "sent (emit ''user:typing'' (ChatPayload ''c1'') ex_connecting) = []"
    by simp
  moreover from C7_emit_without_connection [of ex_connected "''user:typing''" "ChatPayload ''c1''"]
    ex_connected_isConnected s2
  have "sent (emit ''user:typing'' (ChatPayload ''c1'') ex_connected)
     = [(sock_id (the (socket ex_connected)), ''user:typing'', ChatPayload ''c1'')]"
    by simp
  ultimately show ?thesis by blast
qed

lemma disconnect_socket [simp]: "socket (disconnect m) = None"
  by (simp add: disconnect_def socket_disconnect_def on_disconnect_def Let_def split: option.splits)

lemma disconnect_flag: "socket m \<noteq> None \<Longrightarrow> isIntentionalDisconnect (disconnect m)"
  by (auto simp add: disconnect_def socket_disconnect_def on_disconnect_def Let_def split: option.splits)

lemma disconnect_flag_eq:
  "isIntentionalDisconnect (disconnect m) = (isIntentionalDisconnect m \<or> socket m \<noteq> None)"
  by (auto simp add: disconnect_def socket_disconnect_def on_disconnect_def Let_def split: option.splits)

lemma disconnect_keeps:
  "reconnectTimers (disconnect m) = reconnectTimers m"
  "opened (disconnect m) = opened m"
  "reconnectAttempts (disconnect m) = reconnectAttempts m"
  "maxReconnectAttempts (disconnect m) = maxReconnectAttempts m"
  "accessToken (disconnect m) = accessToken m"
  "sent (disconnect m) = sent m"
  by (auto simp add: disconnect_def socket_disconnect_def on_disconnect_def Let_def split: option.splits)

lemma on_disconnect_intentional:
  "isIntentionalDisconnect m \<Longrightarrow> reconnectTimers (on_disconnect reason m) = reconnectTimers m"
  by (simp add: on_disconnect_def Let_def)

lemma connect_errors_below:
  "reconnectAttempts m = 0 \<Longrightarrow> n < maxReconnectAttempts m \<Longrightarrow>
     \<exists>c. connect_errors n m = m\<lparr>console := c, reconnectAttempts := n\<rparr>"
proof (induction n)
  case 0
  then have "connect_errors 0 m = m\<lparr>console := console m, reconnectAttempts := 0\<rparr>"
    by simp
  then show ?case by blast
next
  case (Suc n)
  then obtain c where ih: "connect_errors n m = m\<lparr>console := c, reconnectAttempts := n\<rparr>"
    by auto
  have "on_connect_error (m\<lparr>console := c, reconnectAttempts := n\<rparr>) =
          m\<lparr>console := c @ [ConsoleError ''Socket.io connection error''], reconnectAttempts := Suc n\<rparr>"
    using Suc.prems by (simp add: on_connect_error_def Let_def)
  with ih have "connect_errors (Suc n) m =
      m\<lparr>console := c @ [ConsoleError ''Socket.io connection error''], reconnectAttempts := Suc n\<rparr>"
    by simp
  then show ?case by blast
qed

lemma connect_errors_cap:
  assumes zero: "reconnectAttempts m = 0" and pos: "0 < maxReconnectAttempts m"
  shows "\<exists>c. connect_errors (maxReconnectAttempts m) m =
           disconnect (m\<lparr>reconnectAttempts := maxReconnectAttempts m, console := c\<rparr>)"
proof -
  obtain k where k: "maxReconnectAttempts m = Suc k"
    using pos by (cases "maxReconnectAttempts m") auto
  then have "k < maxReconnectAttempts m" by simp
  from connect_errors_below [OF zero this]
  obtain c where c: "connect_errors k m = m\<lparr>console := c, reconnectAttempts := k\<rparr>"
    by blast
  have "on_connect_error (m\<lparr>console := c, reconnectAttempts := k\<rparr>) =
          disconnect (m\<lparr>reconnectAttempts := Suc k,
                         console := c @ [ConsoleError ''Socket.io connection error'']
                           @ [ConsoleError ''Max reconnection attempts reached'']\<rparr>)"
    using k by (simp add: on_connect_error_def Let_def)
  with c k show ?thesis
    by (metis connect_errors.simps(2))
qed

lemma disconnect_torn_down:
  "socket m = Some s \<Longrightarrow> torn_down (disconnect m) = torn_down m @ [sock_id s]"
  by (simp add: disconnect_def socket_disconnect_def on_disconnect_def Let_def)

lemma disconnect_no_socket: "socket m = None \<Longrightarrow> disconnect m = m"
  by (simp add: disconnect_def)

text \<open>
  The first half of claim C2 holds for any cap. Counting from zero, the manager keeps
  its socket through fewer than \<open>maxReconnectAttempts\<close> connection errors in a row. At
  the error that reaches the cap it disconnects: \<open>socket.disconnect()\<close> is called on
  the handle, which stops the library's own retries, the socket is null, the manager
  is not connected, the intentional flag is set, no reconnect timer was armed and no
  new \<open>io\<close> call made, and the \<open>disconnect\<close> listener arms none for any reason.
\<close>

lemma reconnect_cap_terminal:
  assumes zero: "reconnectAttempts m = 0"
    and pos: "0 < maxReconnectAttempts m"
    and sock: "socket m = Some s"
  shows "(\<forall>n < maxReconnectAttempts m.
            socket (connect_errors n m) = socket m \<and>
            reconnectAttempts (connect_errors n m) = n \<and>
            torn_down (connect_errors n m) = torn_down m \<and>
            isIntentionalDisconnect (connect_errors n m) = isIntentionalDisconnect m) \<and>
         socket (connect_errors (maxReconnectAttempts m) m) = None \<and>
         torn_down (connect_errors (maxReconnectAttempts m) m) = torn_down m @ [sock_id s] \<and>
         \<not> isConnected (connect_errors (maxReconnectAttempts m) m) \<and>
         isIntentionalDisconnect (connect_errors (maxReconnectAttempts m) m) \<and>
         reconnectAttempts (connect_errors (maxReconnectAttempts m) m) = maxReconnectAttempts m \<and>
         reconnectTimers (connect_errors (maxReconnectAttempts m) m) = reconnectTimers m \<and>
         opened (connect_errors (maxReconnectAttempts m) m) = opened m \<and>
         (\<forall>reason. reconnectTimers (on_disconnect reason (connect_errors (maxReconnectAttempts m) m))
                     = reconnectTimers m)"
proof -
  let ?K = "maxReconnectAttempts m"
  let ?t = "connect_errors ?K m"
  have below: "\<forall>n < ?K. socket (connect_errors n m) = socket m \<and>
            reconnectAttempts (connect_errors n m) = n \<and>
            torn_down (connect_errors n m) = torn_down m \<and>
            isIntentionalDisconnect (connect_errors n m) = isIntentionalDisconnect m"
  proof (intro allI impI)
    fix n assume "n < ?K"
    from connect_errors_below [OF zero this]
    obtain c where "connect_errors n m = m\<lparr>console := c, reconnectAttempts := n\<rparr>" by blast
    then show "socket (connect_errors n m) = socket m \<and>
            reconnectAttempts (connect_errors n m) = n \<and>
            torn_down (connect_errors n m) = torn_down m \<and>
            isIntentionalDisconnect (connect_errors n m) = isIntentionalDisconnect m"
      by simp
  qed
  from connect_errors_cap [OF zero pos]
  obtain c where t: "?t = disconnect (m\<lparr>reconnectAttempts := ?K, console := c\<rparr>)"
    by blast
  have held: "socket (m\<lparr>reconnectAttempts := ?K, console := c\<rparr>) = Some s"
    using sock by simp
  have s: "socket ?t = None"
    by (simp add: t)
  have td: "torn_down ?t = torn_down m @ [sock_id s]"
    using disconnect_torn_down [OF held] by (simp add: t)
  have nc: "\<not> isConnected ?t"
    by (simp add: isConnected_def s)
  have fl: "isIntentionalDisconnect ?t"
    using sock by (simp add: t disconnect_flag)
  have tm: "reconnectTimers ?t = reconnectTimers m"
    by (simp add: t disconnect_keeps)
  have op: "opened ?t = opened m"
    by (simp add: t disconnect_keeps)
  have at: "reconnectAttempts ?t = ?K"
    by (simp add: t disconnect_keeps)
  have od: "\<forall>reason. reconnectTimers (on_disconnect reason ?t) = reconnectTimers m"
    using fl tm by (simp add: on_disconnect_intentional)
  from below s td nc fl at tm op od show ?thesis
    by blast
qed

text \<open>
  What a manual \<open>connect()\<close> does from there, for any cap: with a stored token it
  makes a new socket and clears the intentional flag, and it leaves the attempt counter
  at the cap. The counter is written by the listeners of \<open>connect\<close>, \<open>reconnect\<close>
  and \<open>connect_error\<close> only. So the first connection error of the new socket
  already is at the cap, and tears the new socket down.
\<close>

lemma connect_after_cap:
  assumes zero: "reconnectAttempts m = 0"
    and pos: "0 < maxReconnectAttempts m"
    and sock: "socket m = Some s"
    and tok: "\<not> falsy_string (accessToken m)"
  shows "reconnectAttempts (snd (connect (connect_errors (maxReconnectAttempts m) m)))
           = maxReconnectAttempts m \<and>
         socket (snd (connect (connect_errors (maxReconnectAttempts m) m)))
           = Some \<lparr>sock_id = length (opened m), connected = False, listeners = manager_events\<rparr> \<and>
         \<not> isIntentionalDisconnect (snd (connect (connect_errors (maxReconnectAttempts m) m))) \<and>
         reconnectAttempts (on_connect_error (snd (connect (connect_errors (maxReconnectAttempts m) m))))
           = Suc (maxReconnectAttempts m) \<and>
         socket (on_connect_error (snd (connect (connect_errors (maxReconnectAttempts m) m)))) = None \<and>
         torn_down (on_connect_error (snd (connect (connect_errors (maxReconnectAttempts m) m))))
           = torn_down m @ [sock_id s, length (opened m)]"
proof -
  let ?K = "maxReconnectAttempts m"
  let ?t = "connect_errors ?K m"
  let ?s = "\<lparr>sock_id = length (opened m), connected = False, listeners = manager_events\<rparr>"
  from connect_errors_cap [OF zero pos]
  obtain c where t: "?t = disconnect (m\<lparr>reconnectAttempts := ?K, console := c\<rparr>)"
    by blast
  note terminal = reconnect_cap_terminal [OF zero pos sock]
  have f: "\<not> isConnected ?t" "reconnectAttempts ?t = ?K" "opened ?t = opened m"
    "torn_down ?t = torn_down m @ [sock_id s]"
    using terminal by simp_all
  have tk: "accessToken ?t = accessToken m" "maxReconnectAttempts ?t = ?K"
    by (simp_all add: t disconnect_keeps)
  have c: "snd (connect ?t) = ?t\<lparr>isIntentionalDisconnect := False, socket := Some ?s,
       opened := opened m @ [io_options ?t (the (accessToken m))]\<rparr>"
    using f(1) tok by (simp add: connect_def Let_def tk f(3))
  let ?m1 = "(snd (connect ?t))\<lparr>console := console (snd (connect ?t)) @ [ConsoleError ''Socket.io connection error''],
       reconnectAttempts := Suc ?K,
       console := console (snd (connect ?t)) @ [ConsoleError ''Socket.io connection error'']
          @ [ConsoleError ''Max reconnection attempts reached'']\<rparr>"
  have e: "on_connect_error (snd (connect ?t)) = disconnect ?m1"
    by (simp add: on_connect_error_def Let_def c f(2) tk)
  have held: "socket ?m1 = Some ?s"
    by (simp add: c)
  have td: "torn_down (disconnect ?m1) = torn_down ?m1 @ [sock_id ?s]"
    by (rule disconnect_torn_down [OF held])
  have "reconnectAttempts (snd (connect ?t)) = ?K"
    by (simp add: c f(2))
  moreover have "socket (snd (connect ?t)) = Some ?s"
    by (simp add: c)
  moreover have "\<not> isIntentionalDisconnect (snd (connect ?t))"
    by (simp add: c)
  moreover have "reconnectAttempts (on_connect_error (snd (connect ?t))) = Suc ?K"
    by (simp add: e disconnect_keeps)
  moreover have "socket (on_connect_error (snd (connect ?t))) = None"
    by (simp add: e)
  moreover have "torn_down (on_connect_error (snd (connect ?t)))
      = torn_down m @ [sock_id s, length (opened m)]"
    unfolding e td by (simp add: c f(4))
  ultimately show ?thesis by blast
qed

text \<open>
  Claim C2 fails on its second half. A manager with a stored token calls \<open>connect()\<close>
  and gets five connection errors in a row: the socket (handle 0) is torn down and no
  reconnect is scheduled, as the claim says. The user then calls \<open>connect()\<close> by hand:
  the new socket (handle 1) is opened with a fresh budget of five attempts for the
  library and the intentional flag is cleared, and the attempt counter is still five,
  not zero. One connection error of the new socket makes it six and tears the new
  socket down.
\<close>

theorem C2_manual_connect_keeps_counter:
  "socket (connect_errors 5 ex_connecting) = None \<and>
   torn_down (connect_errors 5 ex_connecting) = [0] \<and>
   reconnectTimers (connect_errors 5 ex_connecting) = [] \<and>
   reconnectAttempts (snd (connect (connect_errors 5 ex_connecting))) = 5 \<and>
   map io_reconnectionAttempts (opened (snd (connect (connect_errors 5 ex_connecting)))) = [5, 5] \<and>
   socket (snd (connect (connect_errors 5 ex_connecting)))
     = Some \<lparr>sock_id = 1, connected = False, listeners = manager_events\<rparr> \<and>
   isIntentionalDisconnect (snd (connect (connect_errors 5 ex_connecting))) = False \<and>
   reconnectAttempts (on_connect_error (snd (connect (connect_errors 5 ex_connecting)))) = 6 \<and>
   socket (on_connect_error (snd (connect (connect_errors 5 ex_connecting)))) = None \<and>
   torn_down (on_connect_error (snd (connect (connect_errors 5 ex_connecting)))) = [0, 1]"
proof -
  have five: "connect_errors 5 m
      = on_connect_error (on_connect_error (on_connect_error (on_connect_error (on_connect_error m))))"
    for m
    by (simp add: numeral_eq_Suc)
  show ?thesis
    unfolding five
    by (simp add: ex_connecting_eq on_connect_error_def Let_def new_SocketManager_def
        disconnect_def socket_disconnect_def connect_def isConnected_def falsy_string_def
        io_options_def)
qed

text \<open>
  The listeners of \<open>connect\<close> and of \<open>reconnect\<close> both put the counter back to
  zero.
\<close>

lemma counter_reset_by_listeners:
  "reconnectAttempts (on_connect m) = 0" "reconnectAttempts (on_reconnect m) = 0"
  "reconnectAttempts (socket_connected m) = 0"
  by (simp_all add: on_connect_def on_reconnect_def socket_connected_def)

text \<open>
  Claim C8, as the code has it. After \<open>disconnect()\<close> of the service the five handler
  sets are empty and every listener of the service calls no handler; the manager holds
  no socket and no reconnect timer was armed. When the manager held a socket at the
  call, \<open>socket.disconnect()\<close> was called on that handle before the field was set to
  null, the intentional flag is set, and the \<open>disconnect\<close> listener arms no timer for
  any reason. When it held none, the manager is exactly as it was before: there is
  nothing to tear down and the flag is not touched.
\<close>

theorem C8_service_disconnect:
  "socket (manager (service_disconnect svc)) = None \<and>
   messageHandlers (service_disconnect svc) = [] \<and>
   messageEditedHandlers (service_disconnect svc) = [] \<and>
   messageDeletedHandlers (service_disconnect svc) = [] \<and>
   userStatusHandlers (service_disconnect svc) = [] \<and>
   typingHandlers (service_disconnect svc) = [] \<and>
   on_message_new (service_disconnect svc) nd = [] \<and>
   on_message_edited (service_disconnect svc) ed = [] \<and>
   on_message_deleted (service_disconnect svc) dd = [] \<and>
   on_user_online (service_disconnect svc) us = [] \<and>
   on_user_offline (service_disconnect svc) us = [] \<and>
   on_user_typing (service_disconnect svc) te = [] \<and>
   reconnectTimers (manager (service_disconnect svc)) = reconnectTimers (manager svc) \<and>
   isIntentionalDisconnect (manager (service_disconnect svc)) =
     (isIntentionalDisconnect (manager svc) \<or> socket (manager svc) \<noteq> None) \<and>
   (\<forall>s. socket (manager svc) = Some s \<longrightarrow>
      torn_down (manager (service_disconnect svc)) = torn_down (manager svc) @ [sock_id s] \<and>
      isIntentionalDisconnect (manager (service_disconnect svc)) \<and>
      reconnectTimers (on_disconnect reason (manager (service_disconnect svc)))
        = reconnectTimers (manager svc)) \<and>
   (socket (manager svc) = None \<longrightarrow> manager (service_disconnect svc) = manager svc)"
proof -
  have m: "manager (service_disconnect svc) = disconnect (manager svc)"
    by (simp add: service_disconnect_def)
  have hs: "messageHandlers (service_disconnect svc) = []"
    "messageEditedHandlers (service_disconnect svc) = []"
    "messageDeletedHandlers (service_disconnect svc) = []"
    "userStatusHandlers (service_disconnect svc) = []"
    "typingHandlers (service_disconnect svc) = []"
    by (simp_all add: service_disconnect_def)
  have calls: "on_message_new (service_disconnect svc) nd = []"
    "on_message_edited (service_disconnect svc) ed = []"
    "on_message_deleted (service_disconnect svc) dd = []"
    "on_user_online (service_disconnect svc) us = []"
    "on_user_offline (service_disconnect svc) us = []"
    "on_user_typing (service_disconnect svc) te = []"
    by (simp_all add: hs on_message_new_def on_message_edited_def on_message_deleted_def
        on_user_online_def on_user_offline_def on_user_typing_def)
  have fl: "isIntentionalDisconnect (manager (service_disconnect svc)) =
     (isIntentionalDisconnect (manager svc) \<or> socket (manager svc) \<noteq> None)"
    by (simp add: m disconnect_flag_eq)
  have tm: "reconnectTimers (manager (service_disconnect svc)) = reconnectTimers (manager svc)"
    by (simp add: m disconnect_keeps)
  have od: "\<forall>s. socket (manager svc) = Some s \<longrightarrow>
      torn_down (manager (service_disconnect svc)) = torn_down (manager svc) @ [sock_id s] \<and>
      isIntentionalDisconnect (manager (service_disconnect svc)) \<and>
      reconnectTimers (on_disconnect reason (manager (service_disconnect svc)))
        = reconnectTimers (manager svc)"
    using fl tm by (simp add: on_disconnect_intentional m disconnect_torn_down)
  have none: "socket (manager svc) = None \<longrightarrow> manager (service_disconnect svc) = manager svc"
    by (simp add: m disconnect_no_socket)
  have s: "socket (manager (service_disconnect svc)) = None"
    by (simp add: m)
  from s hs calls tm fl od none show ?thesis
    by blast
qed

text \<open>
  Claim C8 as stated fails on a service that holds no socket: after \<open>disconnect()\<close>
  of a fresh service the intentional flag is still unset.
\<close>

theorem C8_flag_not_set_counterexample:
  "\<not> isIntentionalDisconnect (manager (service_disconnect (new_SocketService (Some ''tok''))))"
  by (simp add: service_disconnect_def new_SocketService_def new_SocketManager_def disconnect_def)

lemma ex_service_manager:
  "socket (manager ex_service)
     = Some \<lparr>sock_id = 0, connected = False, listeners = manager_events @ service_events\<rparr>"
  "torn_down (manager ex_service) = []"
  by (simp_all add: ex_service_def initialize_def new_SocketService_def connect_def
      new_SocketManager_def isConnected_def falsy_string_def onNewMessage_subscribe_def
      onTyping_subscribe_def Let_def)

theorem C8_service_disconnect_witness:
  "messageHandlers ex_service = [1] \<and>
   socket (manager ex_service) \<noteq> None \<and>
   socket (manager (service_disconnect ex_service)) = None \<and>
   torn_down (manager (service_disconnect ex_service)) = [0] \<and>
   messageHandlers (service_disconnect ex_service) = [] \<and>
   typingHandlers (service_disconnect ex_service) = [] \<and>
   isIntentionalDisconnect (manager (service_disconnect ex_service)) \<and>
   reconnectTimers (on_disconnect ''io server disconnect'' (manager (service_disconnect ex_service)))
     = reconnectTimers (manager ex_service) \<and>
   manager (service_disconnect (new_SocketService (Some ''tok''))) = new_SocketManager (Some ''tok'')"
proof -
  note held = C8_service_disconnect [of ex_service _ _ _ _ _ "''io server disconnect''"]
  note fresh = C8_service_disconnect [of "new_SocketService (Some ''tok'')"]
  have none: "socket (manager (new_SocketService (Some ''tok''))) = None"
    "manager (new_SocketService (Some ''tok'')) = new_SocketManager (Some ''tok'')"
    by (simp_all add: new_SocketService_def new_SocketManager_def)
  from held ex_service_manager
  have td: "torn_down (manager (service_disconnect ex_service)) = [0]"
    by simp
  from fresh none
  have unchanged: "manager (service_disconnect (new_SocketService (Some ''tok'')))
      = new_SocketManager (Some ''tok'')"
    by simp
  from held ex_service_socket ex_service_handlers td unchanged show ?thesis
    by blast
qed

section \<open>Properties of the typing indicator\<close>

lemma typing_inv_init: "typing_inv typing_view_init"
  by (simp add: typing_inv_def typing_view_init_def)

lemma fold_timeout_users:
  "typingUsers (fold (\<lambda>t. typing_timeout (snd (snd t))) ts v)
     = typingUsers v - (\<lambda>t. snd (snd t)) ` set ts"
  by (induction ts arbitrary: v) (auto simp add: typing_timeout_def)

lemma fold_timeout_ref:
  "typingTimeoutRef (fold (\<lambda>t. typing_timeout (snd (snd t))) ts v) a
     = (if a \<in> (\<lambda>t. snd (snd t)) ` set ts then None else typingTimeoutRef v a)"
  by (induction ts arbitrary: v) (auto simp add: typing_timeout_def)

lemma fold_timeout_keeps:
  "pending (fold (\<lambda>t. typing_timeout (snd (snd t))) ts v) = pending v"
  "clock (fold (\<lambda>t. typing_timeout (snd (snd t))) ts v) = clock v"
  "nextHandle (fold (\<lambda>t. typing_timeout (snd (snd t))) ts v) = nextHandle v"
  by (induction ts arbitrary: v) (auto simp add: typing_timeout_def)

lemma elapse_fields:
  "clock (elapse d v) = clock v + d"
  "nextHandle (elapse d v) = nextHandle v"
  "pending (elapse d v) = filter (\<lambda>t. \<not> fst (snd t) \<le> clock v + d) (pending v)"
  "typingUsers (elapse d v) = typingUsers v - (\<lambda>t. snd (snd t)) ` set (due_timers d v)"
  "typingTimeoutRef (elapse d v) a
     = (if a \<in> (\<lambda>t. snd (snd t)) ` set (due_timers d v) then None else typingTimeoutRef v a)"
  by (simp_all add: elapse_def fold_timeout_users fold_timeout_ref fold_timeout_keeps)

lemma typing_inv_elapse:
  assumes inv: "typing_inv v"
  shows "typing_inv (elapse d v)"
proof -
  from inv have A: "\<And>a h. (typingTimeoutRef v a = Some h) = (\<exists>due. (h, due, a) \<in> set (pending v))"
    and B: "distinct (map fst (pending v))"
    and C: "\<And>t. t \<in> set (pending v) \<Longrightarrow> fst t < nextHandle v \<and> clock v < fst (snd t)"
    and D: "\<And>u. u \<in> typingUsers v \<Longrightarrow> typingTimeoutRef v u \<noteq> None"
    by (auto simp add: typing_inv_def)
  have uniq: "\<And>h d1 a1 d2 a2. (h, d1, a1) \<in> set (pending v) \<Longrightarrow> (h, d2, a2) \<in> set (pending v)
      \<Longrightarrow> d1 = d2 \<and> a1 = a2"
    using B by (metis eq_key_imp_eq_value prod.inject)
  have A': "(typingTimeoutRef (elapse d v) a = Some h)
      = (\<exists>due. (h, due, a) \<in> set (pending (elapse d v)))" for a h
  proof
    assume l: "typingTimeoutRef (elapse d v) a = Some h"
    then have nd: "a \<notin> (\<lambda>t. snd (snd t)) ` set (due_timers d v)" and r: "typingTimeoutRef v a = Some h"
      by (auto simp add: elapse_fields split: if_splits)
    from r A obtain due where p: "(h, due, a) \<in> set (pending v)" by blast
    with nd have "\<not> due \<le> clock v + d"
      by (force simp add: due_timers_def)
    with p show "\<exists>due. (h, due, a) \<in> set (pending (elapse d v))"
      by (auto simp add: elapse_fields)
  next
    assume "\<exists>due. (h, due, a) \<in> set (pending (elapse d v))"
    then obtain due where p: "(h, due, a) \<in> set (pending v)" and late: "\<not> due \<le> clock v + d"
      by (auto simp add: elapse_fields)
    from p A have r: "typingTimeoutRef v a = Some h" by blast
    have "a \<notin> (\<lambda>t. snd (snd t)) ` set (due_timers d v)"
    proof
      assume "a \<in> (\<lambda>t. snd (snd t)) ` set (due_timers d v)"
      then obtain h' due' where q: "(h', due', a) \<in> set (pending v)" and early: "due' \<le> clock v + d"
        by (auto simp add: due_timers_def)
      from q A have "typingTimeoutRef v a = Some h'" by blast
      with r have "h' = h" by simp
      with q p uniq have "due' = due" by blast
      with early late show False by simp
    qed
    with r show "typingTimeoutRef (elapse d v) a = Some h"
      by (simp add: elapse_fields)
  qed
  have B': "distinct (map fst (pending (elapse d v)))"
    using B by (simp add: elapse_fields distinct_map_filter)
  have C': "\<forall>t \<in> set (pending (elapse d v)). fst t < nextHandle (elapse d v) \<and> clock (elapse d v) < fst (snd t)"
    using C by (auto simp add: elapse_fields)
  have D': "\<forall>u \<in> typingUsers (elapse d v). typingTimeoutRef (elapse d v) u \<noteq> None"
    using D by (auto simp add: elapse_fields)
  from A' B' C' D' show ?thesis
    unfolding typing_inv_def by blast
qed


lemma onTyping_other_chat:
  "Some (ty_chatId ev) \<noteq> sel \<Longrightarrow> onTyping sel ev v = v"
  by (simp add: onTyping_def)

lemma onTyping_start_fields:
  assumes "Some (ty_chatId ev) = sel" "ty_isTyping ev"
  shows "typingUsers (onTyping sel ev v) = insert (ty_userId ev) (typingUsers v)"
    "pending (onTyping sel ev v) =
       (case typingTimeoutRef v (ty_userId ev) of
          Some h \<Rightarrow> filter (\<lambda>t. fst t \<noteq> h) (pending v)
        | None \<Rightarrow> pending v) @ [(nextHandle v, clock v + 5000, ty_userId ev)]"
    "typingTimeoutRef (onTyping sel ev v) = (typingTimeoutRef v)(ty_userId ev \<mapsto> nextHandle v)"
    "nextHandle (onTyping sel ev v) = Suc (nextHandle v)"
    "clock (onTyping sel ev v) = clock v"
  using assms
  by (simp_all add: onTyping_def Let_def setTimeout_def clearTimeout_def split: option.split)

lemma onTyping_stop_fields:
  assumes "Some (ty_chatId ev) = sel" "\<not> ty_isTyping ev"
  shows "typingUsers (onTyping sel ev v) = typingUsers v - {ty_userId ev}"
    "pending (onTyping sel ev v) =
       (case typingTimeoutRef v (ty_userId ev) of
          Some h \<Rightarrow> filter (\<lambda>t. fst t \<noteq> h) (pending v)
        | None \<Rightarrow> pending v)"
    "typingTimeoutRef (onTyping sel ev v) = (typingTimeoutRef v)(ty_userId ev := None)"
    "nextHandle (onTyping sel ev v) = nextHandle v"
    "clock (onTyping sel ev v) = clock v"
  using assms
  by (auto simp add: onTyping_def Let_def clearTimeout_def split: option.split)

lemma cleared_is_user_filter:
  assumes inv: "typing_inv v"
  shows "(case typingTimeoutRef v u of
            Some h \<Rightarrow> filter (\<lambda>t. fst t \<noteq> h) (pending v)
          | None \<Rightarrow> pending v)
         = filter (\<lambda>t. snd (snd t) \<noteq> u) (pending v)"
proof -
  from inv have A: "\<And>a h. (typingTimeoutRef v a = Some h) = (\<exists>due. (h, due, a) \<in> set (pending v))"
    and B: "distinct (map fst (pending v))"
    by (auto simp add: typing_inv_def)
  have uniq: "\<And>h d1 a1 d2 a2. (h, d1, a1) \<in> set (pending v) \<Longrightarrow> (h, d2, a2) \<in> set (pending v)
      \<Longrightarrow> d1 = d2 \<and> a1 = a2"
    using B by (metis eq_key_imp_eq_value prod.inject)
  show ?thesis
  proof (cases "typingTimeoutRef v u")
    case None
    have "\<forall>t \<in> set (pending v). snd (snd t) \<noteq> u"
    proof
      fix t assume t: "t \<in> set (pending v)"
      show "snd (snd t) \<noteq> u"
      proof
        assume "snd (snd t) = u"
        with t have "(fst t, fst (snd t), u) \<in> set (pending v)" by auto
        with A have "typingTimeoutRef v u = Some (fst t)" by blast
        with None show False by simp
      qed
    qed
    then have "filter (\<lambda>t. snd (snd t) \<noteq> u) (pending v) = pending v"
      by (simp add: filter_id_conv)
    with None show ?thesis by simp
  next
    case (Some h)
    with A obtain due where own: "(h, due, u) \<in> set (pending v)" by blast
    have "filter (\<lambda>t. fst t \<noteq> h) (pending v) = filter (\<lambda>t. snd (snd t) \<noteq> u) (pending v)"
    proof (rule filter_cong [OF refl])
      fix t assume t: "t \<in> set (pending v)"
      obtain h' d' a' where t_eq: "t = (h', d', a')" by (cases t) auto
      show "(fst t \<noteq> h) = (snd (snd t) \<noteq> u)"
      proof (cases "h' = h")
        case True
        with t t_eq own uniq have "a' = u" by blast
        with True t_eq show ?thesis by simp
      next
        case False
        have "a' \<noteq> u"
        proof
          assume "a' = u"
          with t t_eq A have "typingTimeoutRef v u = Some h'" by blast
          with Some False show False by simp
        qed
        with False t_eq show ?thesis by simp
      qed
    qed
    with Some show ?thesis by simp
  qed
qed

lemma typing_inv_onTyping:
  assumes inv: "typing_inv v"
  shows "typing_inv (onTyping sel ev v)"
proof (cases "Some (ty_chatId ev) = sel")
  case False
  with inv show ?thesis by (simp add: onTyping_other_chat)
next
  case chat: True
  let ?u = "ty_userId ev"
  let ?v = "onTyping sel ev v"
  let ?rest = "filter (\<lambda>t. snd (snd t) \<noteq> ?u) (pending v)"
  from inv have A: "\<And>a h. (typingTimeoutRef v a = Some h) = (\<exists>due. (h, due, a) \<in> set (pending v))"
    and B: "distinct (map fst (pending v))"
    and C: "\<And>t. t \<in> set (pending v) \<Longrightarrow> fst t < nextHandle v \<and> clock v < fst (snd t)"
    and D: "\<And>u. u \<in> typingUsers v \<Longrightarrow> typingTimeoutRef v u \<noteq> None"
    by (auto simp add: typing_inv_def)
  show ?thesis
  proof (cases "ty_isTyping ev")
    case True
    note f = onTyping_start_fields [OF chat True, of v]
    have p: "pending ?v = ?rest @ [(nextHandle v, clock v + 5000, ?u)]"
      by (simp add: f(2) cleared_is_user_filter [OF inv])
    have fresh: "nextHandle v \<notin> fst ` set (pending v)"
      using C by force
    have A': "(typingTimeoutRef ?v a = Some h) = (\<exists>due. (h, due, a) \<in> set (pending ?v))" for a h
    proof (cases "a = ?u")
      case True
      then show ?thesis by (auto simp add: f(3) p)
    next
      case False
      then show ?thesis using A [of a h] by (auto simp add: f(3) p)
    qed
    have B': "distinct (map fst (pending ?v))"
      using B fresh by (auto simp add: p distinct_map_filter)
    have C': "\<forall>t \<in> set (pending ?v). fst t < nextHandle ?v \<and> clock ?v < fst (snd t)"
      using C by (auto simp add: p f(4) f(5) less_Suc_eq)
    have D': "\<forall>u \<in> typingUsers ?v. typingTimeoutRef ?v u \<noteq> None"
      using D by (auto simp add: f(1) f(3))
    from A' B' C' D' show ?thesis
      unfolding typing_inv_def by blast
  next
    case False
    note f = onTyping_stop_fields [OF chat False, of v]
    have p: "pending ?v = ?rest"
      by (simp add: f(2) cleared_is_user_filter [OF inv])
    have A': "(typingTimeoutRef ?v a = Some h) = (\<exists>due. (h, due, a) \<in> set (pending ?v))" for a h
    proof (cases "a = ?u")
      case True
      then show ?thesis by (auto simp add: f(3) p)
    next
      case False
      then show ?thesis using A [of a h] by (auto simp add: f(3) p)
    qed
    have B': "distinct (map fst (pending ?v))"
      using B by (auto simp add: p distinct_map_filter)
    have C': "\<forall>t \<in> set (pending ?v). fst t < nextHandle ?v \<and> clock ?v < fst (snd t)"
      using C by (auto simp add: p f(4) f(5))
    have D': "\<forall>u \<in> typingUsers ?v. typingTimeoutRef ?v u \<noteq> None"
      using D by (auto simp add: f(1) f(3))
    from A' B' C' D' show ?thesis
      unfolding typing_inv_def by blast
  qed
qed


lemma typing_run_snoc:
  "typing_run sel (tr @ [x]) = typing_step sel x (typing_run sel tr)"
  by (simp add: typing_run_def)

lemma since_signal_snoc:
  "since_signal sel u (tr @ [x]) = since_signal_step sel u x (since_signal sel u tr)"
  by (simp add: since_signal_def)

lemma typing_inv_run: "typing_inv (typing_run sel tr)"
proof (induction tr rule: rev_induct)
  case Nil
  then show ?case by (simp add: typing_run_def typing_inv_init)
next
  case (snoc x tr)
  then show ?case
    by (cases x) (simp_all add: typing_run_snoc typing_inv_onTyping typing_inv_elapse)
qed

lemma typing_timed_step:
  assumes inv: "typing_inv v" and timed: "typing_timed sel tr v"
  shows "typing_timed sel (tr @ [x]) (typing_step sel x v)"
proof (cases x)
  case (Elapse d)
  show ?thesis
    unfolding typing_timed_def
  proof
    fix t assume "t \<in> set (pending (typing_step sel x v))"
    then have t: "t \<in> set (pending v)"
      by (simp add: Elapse elapse_fields)
    with timed obtain e where e: "since_signal sel (snd (snd t)) tr = Some e"
        "fst (snd t) + e = clock v + 5000"
      unfolding typing_timed_def by blast
    then have "since_signal sel (snd (snd t)) (tr @ [x]) = Some (e + d) \<and>
        fst (snd t) + (e + d) = clock (typing_step sel x v) + 5000"
      by (simp add: since_signal_snoc Elapse elapse_fields)
    then show "\<exists>e. since_signal sel (snd (snd t)) (tr @ [x]) = Some e \<and>
        fst (snd t) + e = clock (typing_step sel x v) + 5000"
      by blast
  qed
next
  case (Signal ev)
  show ?thesis
  proof (cases "Some (ty_chatId ev) = sel")
    case False
    then have same: "typing_step sel x v = v"
      by (simp add: Signal onTyping_other_chat)
    from False have "since_signal sel a (tr @ [x]) = since_signal sel a tr" for a
      by (simp add: since_signal_snoc Signal)
    with timed same show ?thesis
      by (simp add: typing_timed_def)
  next
    case chat: True
    let ?u = "ty_userId ev"
    show ?thesis
    proof (cases "ty_isTyping ev")
      case True
      note f = onTyping_start_fields [OF chat True, of v]
      have p: "pending (typing_step sel x v)
          = filter (\<lambda>t. snd (snd t) \<noteq> ?u) (pending v) @ [(nextHandle v, clock v + 5000, ?u)]"
        by (simp add: Signal f(2) cleared_is_user_filter [OF inv])
      have c: "clock (typing_step sel x v) = clock v"
        by (simp add: Signal f(5))
      show ?thesis
        unfolding typing_timed_def
      proof
        fix t assume "t \<in> set (pending (typing_step sel x v))"
        then consider "t \<in> set (pending v)" "snd (snd t) \<noteq> ?u"
          | "t = (nextHandle v, clock v + 5000, ?u)"
          by (auto simp add: p)
        then show "\<exists>e. since_signal sel (snd (snd t)) (tr @ [x]) = Some e \<and>
            fst (snd t) + e = clock (typing_step sel x v) + 5000"
        proof cases
          case 1
          with timed obtain e where e: "since_signal sel (snd (snd t)) tr = Some e"
              "fst (snd t) + e = clock v + 5000"
            unfolding typing_timed_def by blast
          from 1(2) have "since_signal sel (snd (snd t)) (tr @ [x]) = since_signal sel (snd (snd t)) tr"
            by (auto simp add: since_signal_snoc Signal)
          with e c show ?thesis by simp
        next
          case 2
          have "since_signal sel ?u (tr @ [x]) = Some 0"
            using chat True by (simp add: since_signal_snoc Signal)
          with 2 c show ?thesis by simp
        qed
      qed
    next
      case False
      note f = onTyping_stop_fields [OF chat False, of v]
      have p: "pending (typing_step sel x v) = filter (\<lambda>t. snd (snd t) \<noteq> ?u) (pending v)"
        by (simp add: Signal f(2) cleared_is_user_filter [OF inv])
      have c: "clock (typing_step sel x v) = clock v"
        by (simp add: Signal f(5))
      from False have s: "since_signal sel a (tr @ [x]) = since_signal sel a tr" for a
        by (simp add: since_signal_snoc Signal)
      from timed show ?thesis
        by (auto simp add: typing_timed_def p c s)
    qed
  qed
qed

lemma typing_timed_run: "typing_timed sel tr (typing_run sel tr)"
proof (induction tr rule: rev_induct)
  case Nil
  then show ?case by (simp add: typing_run_def typing_timed_def typing_view_init_def)
next
  case (snoc x tr)
  from typing_timed_step [OF typing_inv_run snoc.IH, of x]
  show ?case by (simp add: typing_run_snoc)
qed

lemma typing_recent_signal:
  assumes shown: "u \<in> typingUsers (typing_run sel tr)"
  shows "\<exists>e. since_signal sel u tr = Some e \<and> e < 5000"
proof -
  let ?v = "typing_run sel tr"
  have inv: "typing_inv ?v" by (rule typing_inv_run)
  from inv shown obtain h where "typingTimeoutRef ?v u = Some h"
    by (auto simp add: typing_inv_def)
  with inv obtain due where t: "(h, due, u) \<in> set (pending ?v)"
    by (auto simp add: typing_inv_def)
  with inv have late: "clock ?v < due"
    by (fastforce simp add: typing_inv_def)
  from typing_timed_run [of sel tr] t
  obtain e where "since_signal sel u tr = Some e" "due + e = clock ?v + 5000"
    by (fastforce simp add: typing_timed_def)
  with late show ?thesis by simp
qed


lemma typing_start_armed:
  assumes inv: "typing_inv v" and chat: "Some (ty_chatId ev) = sel" and on: "ty_isTyping ev"
  shows "ty_userId ev \<in> typingUsers (onTyping sel ev v)"
    and "timers_of (ty_userId ev) (onTyping sel ev v)
           = [(nextHandle v, clock v + 5000, ty_userId ev)]"
proof -
  note f = onTyping_start_fields [OF chat on, of v]
  show "ty_userId ev \<in> typingUsers (onTyping sel ev v)"
    by (simp add: f(1))
  have "pending (onTyping sel ev v)
      = filter (\<lambda>t. snd (snd t) \<noteq> ty_userId ev) (pending v)
        @ [(nextHandle v, clock v + 5000, ty_userId ev)]"
    by (simp add: f(2) cleared_is_user_filter [OF inv])
  then show "timers_of (ty_userId ev) (onTyping sel ev v)
           = [(nextHandle v, clock v + 5000, ty_userId ev)]"
    by (simp add: timers_of_def)
qed

lemma typing_stop_cleared:
  assumes inv: "typing_inv v" and chat: "Some (ty_chatId ev) = sel" and off: "\<not> ty_isTyping ev"
  shows "ty_userId ev \<notin> typingUsers (onTyping sel ev v)"
    and "timers_of (ty_userId ev) (onTyping sel ev v) = []"
    and "typingTimeoutRef (onTyping sel ev v) (ty_userId ev) = None"
proof -
  note f = onTyping_stop_fields [OF chat off, of v]
  show "ty_userId ev \<notin> typingUsers (onTyping sel ev v)"
    by (simp add: f(1))
  show "timers_of (ty_userId ev) (onTyping sel ev v) = []"
    by (simp add: timers_of_def f(2) cleared_is_user_filter [OF inv])
  show "typingTimeoutRef (onTyping sel ev v) (ty_userId ev) = None"
    by (simp add: f(3))
qed

lemma typing_single_timer_elapse:
  assumes one: "timers_of u v = [(h, due, u)]" and shown: "u \<in> typingUsers v"
  shows "d + clock v < due \<Longrightarrow> u \<in> typingUsers (elapse d v)"
    and "due \<le> clock v + d \<Longrightarrow> u \<notin> typingUsers (elapse d v)"
    and "due \<le> clock v + d \<Longrightarrow> timers_of u (elapse d v) = []"
    and "due \<le> clock v + d \<Longrightarrow> filter (\<lambda>t. snd (snd t) = u) (due_timers d v) = [(h, due, u)]"
proof -
  have mem: "t \<in> set (pending v) \<and> snd (snd t) = u \<longleftrightarrow> t = (h, due, u)" for t
  proof -
    have "set (timers_of u v) = {(h, due, u)}" by (simp add: one)
    then show ?thesis by (auto simp add: timers_of_def)
  qed
  have sw: "filter (\<lambda>t. snd (snd t) = u) (due_timers d v)
      = filter (\<lambda>t. fst (snd t) \<le> clock v + d) (timers_of u v)"
    by (simp add: due_timers_def timers_of_def conj_commute)
  have sw': "timers_of u (elapse d v)
      = filter (\<lambda>t. \<not> fst (snd t) \<le> clock v + d) (timers_of u v)"
    by (simp add: elapse_fields timers_of_def conj_commute)
  show "d + clock v < due \<Longrightarrow> u \<in> typingUsers (elapse d v)"
  proof -
    assume early: "d + clock v < due"
    have "u \<notin> (\<lambda>t. snd (snd t)) ` set (due_timers d v)"
    proof
      assume "u \<in> (\<lambda>t. snd (snd t)) ` set (due_timers d v)"
      then obtain t where "t \<in> set (pending v)" "snd (snd t) = u" "fst (snd t) \<le> clock v + d"
        by (auto simp add: due_timers_def)
      with mem [of t] early show False by auto
    qed
    with shown show ?thesis by (simp add: elapse_fields)
  qed
  show "due \<le> clock v + d \<Longrightarrow> u \<notin> typingUsers (elapse d v)"
  proof -
    assume late: "due \<le> clock v + d"
    from mem [of "(h, due, u)"] late have "(h, due, u) \<in> set (due_timers d v)"
      by (simp add: due_timers_def)
    then have "u \<in> (\<lambda>t. snd (snd t)) ` set (due_timers d v)"
      by force
    then show ?thesis by (simp add: elapse_fields)
  qed
  show "due \<le> clock v + d \<Longrightarrow> timers_of u (elapse d v) = []"
    by (simp add: sw' one)
  show "due \<le> clock v + d \<Longrightarrow> filter (\<lambda>t. snd (snd t) = u) (due_timers d v) = [(h, due, u)]"
    by (simp add: sw one)
qed

text \<open>
  Within one subscription of the effect the expiry works as follows. Time is in
  milliseconds, and a timer fires when it is due. Whatever typing events and lapses of
  time the view has gone through since the effect subscribed with an empty view, a user
  shown as typing has sent a typing signal for the open chat less than 5000 ms ago. A
  typing signal of \<open>u\<close> for the open chat shows \<open>u\<close> as typing and leaves exactly one
  armed timer for \<open>u\<close>, due 5000 ms later: any earlier timer of \<open>u\<close> is cancelled.
  With no further signal \<open>u\<close> is still shown before 5000 ms have passed; once they
  have, \<open>u\<close> is no longer shown, exactly one callback has run for \<open>u\<close> and no timer
  of \<open>u\<close> remains. A signal with \<open>isTyping = false\<close> removes \<open>u\<close> at once, cancels the
  timer and clears the map entry.
\<close>

lemma typing_expiry_within_subscription:
  "(u \<in> typingUsers (typing_run sel tr) \<longrightarrow> (\<exists>e. since_signal sel u tr = Some e \<and> e < 5000)) \<and>
   (sel = Some c \<longrightarrow>
      u \<in> typingUsers (typing_run sel (tr @ [Signal \<lparr>ty_userId = u, ty_chatId = c, ty_isTyping = True\<rparr>])) \<and>
      timers_of u (typing_run sel (tr @ [Signal \<lparr>ty_userId = u, ty_chatId = c, ty_isTyping = True\<rparr>]))
        = [(nextHandle (typing_run sel tr), clock (typing_run sel tr) + 5000, u)] \<and>
      (d < 5000 \<longrightarrow>
         u \<in> typingUsers (typing_run sel
               (tr @ [Signal \<lparr>ty_userId = u, ty_chatId = c, ty_isTyping = True\<rparr>, Elapse d]))) \<and>
      (5000 \<le> d \<longrightarrow>
         u \<notin> typingUsers (typing_run sel
               (tr @ [Signal \<lparr>ty_userId = u, ty_chatId = c, ty_isTyping = True\<rparr>, Elapse d])) \<and>
         timers_of u (typing_run sel
               (tr @ [Signal \<lparr>ty_userId = u, ty_chatId = c, ty_isTyping = True\<rparr>, Elapse d])) = [] \<and>
         filter (\<lambda>t. snd (snd t) = u)
           (due_timers d (typing_run sel (tr @ [Signal \<lparr>ty_userId = u, ty_chatId = c, ty_isTyping = True\<rparr>])))
           = [(nextHandle (typing_run sel tr), clock (typing_run sel tr) + 5000, u)]) \<and>
      u \<notin> typingUsers (typing_run sel (tr @ [Signal \<lparr>ty_userId = u, ty_chatId = c, ty_isTyping = False\<rparr>])) \<and>
      timers_of u (typing_run sel (tr @ [Signal \<lparr>ty_userId = u, ty_chatId = c, ty_isTyping = False\<rparr>])) = [] \<and>
      typingTimeoutRef (typing_run sel (tr @ [Signal \<lparr>ty_userId = u, ty_chatId = c, ty_isTyping = False\<rparr>])) u
        = None)"
proof (intro conjI impI)
  assume "u \<in> typingUsers (typing_run sel tr)"
  then show "\<exists>e. since_signal sel u tr = Some e \<and> e < 5000"
    by (rule typing_recent_signal)
next
  let ?v = "typing_run sel tr"
  let ?on = "\<lparr>ty_userId = u, ty_chatId = c, ty_isTyping = True\<rparr>"
  let ?off = "\<lparr>ty_userId = u, ty_chatId = c, ty_isTyping = False\<rparr>"
  let ?v1 = "onTyping sel ?on ?v"
  have inv: "typing_inv ?v" by (rule typing_inv_run)
  have r1: "typing_run sel (tr @ [Signal ?on]) = ?v1"
    by (simp add: typing_run_snoc)
  have r2: "typing_run sel (tr @ [Signal ?on, Elapse d]) = elapse d ?v1"
    using typing_run_snoc [of sel "tr @ [Signal ?on]" "Elapse d"] by (simp add: r1)
  have r3: "typing_run sel (tr @ [Signal ?off]) = onTyping sel ?off ?v"
    by (simp add: typing_run_snoc)
  assume sel: "sel = Some c"
  then have chat: "Some (ty_chatId ?on) = sel" "Some (ty_chatId ?off) = sel"
    by simp_all
  from typing_start_armed [OF inv chat(1)]
  have shown: "u \<in> typingUsers ?v1"
    and one: "timers_of u ?v1 = [(nextHandle ?v, clock ?v + 5000, u)]"
    by simp_all
  have ck: "clock ?v1 = clock ?v"
    using onTyping_start_fields(5) [OF chat(1), of ?v] by simp
  note el = typing_single_timer_elapse [OF one shown, of d]
  from typing_stop_cleared [OF inv chat(2)]
  have off: "u \<notin> typingUsers (onTyping sel ?off ?v)"
    "timers_of u (onTyping sel ?off ?v) = []"
    "typingTimeoutRef (onTyping sel ?off ?v) u = None"
    by simp_all
  show "u \<in> typingUsers (typing_run sel (tr @ [Signal ?on]))"
    by (simp add: r1 shown)
  show "timers_of u (typing_run sel (tr @ [Signal ?on]))
        = [(nextHandle ?v, clock ?v + 5000, u)]"
    by (simp add: r1 one)
  show "u \<in> typingUsers (typing_run sel (tr @ [Signal ?on, Elapse d]))" if "d < 5000"
    using el(1) that by (simp add: r2 ck)
  show "u \<notin> typingUsers (typing_run sel (tr @ [Signal ?on, Elapse d]))" if "5000 \<le> d"
    using el(2) that by (simp add: r2 ck)
  show "timers_of u (typing_run sel (tr @ [Signal ?on, Elapse d])) = []" if "5000 \<le> d"
    using el(3) that by (simp add: r2 ck)
  show "filter (\<lambda>t. snd (snd t) = u) (due_timers d (typing_run sel (tr @ [Signal ?on])))
           = [(nextHandle ?v, clock ?v + 5000, u)]" if "5000 \<le> d"
    using el(4) that by (simp add: r1 ck)
  show "u \<notin> typingUsers (typing_run sel (tr @ [Signal ?off]))"
    by (simp add: r3 off)
  show "timers_of u (typing_run sel (tr @ [Signal ?off])) = []"
    by (simp add: r3 off)
  show "typingTimeoutRef (typing_run sel (tr @ [Signal ?off])) u = None"
    by (simp add: r3 off)
qed


lemma ex_trace_run:
  "typing_run (Some ''c1'') ex_trace =
     \<lparr>typingUsers = {''u1''}, typingTimeoutRef = [''u1'' \<mapsto> 1],
      pending = [(1, 5000, ''u1'')], nextHandle = 2, clock = 3000\<rparr>"
  by (simp add: typing_run_def ex_trace_def onTyping_def Let_def setTimeout_def
      typing_view_init_def elapse_def due_timers_def)

lemma typing_expiry_within_subscription_example:
  "''u1'' \<in> typingUsers (typing_run (Some ''c1'') ex_trace) \<and>
   (\<exists>e. since_signal (Some ''c1'') ''u1'' ex_trace = Some e \<and> e < 5000) \<and>
   timers_of ''u1'' (typing_run (Some ''c1'')
       (ex_trace @ [Signal \<lparr>ty_userId = ''u1'', ty_chatId = ''c1'', ty_isTyping = True\<rparr>]))
     = [(2, 8000, ''u1'')] \<and>
   ''u1'' \<in> typingUsers (typing_run (Some ''c1'')
       (ex_trace @ [Signal \<lparr>ty_userId = ''u1'', ty_chatId = ''c1'', ty_isTyping = True\<rparr>, Elapse 4999])) \<and>
   ''u1'' \<notin> typingUsers (typing_run (Some ''c1'')
       (ex_trace @ [Signal \<lparr>ty_userId = ''u1'', ty_chatId = ''c1'', ty_isTyping = True\<rparr>, Elapse 5000])) \<and>
   ''u1'' \<notin> typingUsers (typing_run (Some ''c1'')
       (ex_trace @ [Signal \<lparr>ty_userId = ''u1'', ty_chatId = ''c1'', ty_isTyping = False\<rparr>]))"
proof -
  have shown: "''u1'' \<in> typingUsers (typing_run (Some ''c1'') ex_trace)"
    by (simp add: ex_trace_run)
  have nh: "nextHandle (typing_run (Some ''c1'') ex_trace) = 2"
    "clock (typing_run (Some ''c1'') ex_trace) + 5000 = 8000"
    by (simp_all add: ex_trace_run)
  have lt: "(4999::nat) < 5000" "(5000::nat) \<le> 5000"
    by simp_all
  note early = typing_expiry_within_subscription [of "''u1''" "Some ''c1''" ex_trace "''c1''" 4999]
  note late = typing_expiry_within_subscription [of "''u1''" "Some ''c1''" ex_trace "''c1''" 5000]
  from early shown have p2: "\<exists>e. since_signal (Some ''c1'') ''u1'' ex_trace = Some e \<and> e < 5000"
    by blast
  from early have p3: "timers_of ''u1'' (typing_run (Some ''c1'')
       (ex_trace @ [Signal \<lparr>ty_userId = ''u1'', ty_chatId = ''c1'', ty_isTyping = True\<rparr>]))
     = [(2, 8000, ''u1'')]"
    by (simp only: nh)
  from early lt(1) have p4: "''u1'' \<in> typingUsers (typing_run (Some ''c1'')
       (ex_trace @ [Signal \<lparr>ty_userId = ''u1'', ty_chatId = ''c1'', ty_isTyping = True\<rparr>, Elapse 4999]))"
    by blast
  from late lt(2) have p5: "''u1'' \<notin> typingUsers (typing_run (Some ''c1'')
       (ex_trace @ [Signal \<lparr>ty_userId = ''u1'', ty_chatId = ''c1'', ty_isTyping = True\<rparr>, Elapse 5000]))"
    by blast
  from early have p6: "''u1'' \<notin> typingUsers (typing_run (Some ''c1'')
       (ex_trace @ [Signal \<lparr>ty_userId = ''u1'', ty_chatId = ''c1'', ty_isTyping = False\<rparr>]))"
    by blast
  from shown p2 p3 p4 p5 p6 show ?thesis by blast
qed

lemma effect_cleanup_fields:
  "typingUsers (effect_cleanup v) = typingUsers v"
  "typingTimeoutRef (effect_cleanup v) = Map.empty"
  "clock (effect_cleanup v) = clock v"
  "nextHandle (effect_cleanup v) = nextHandle v"
  by (simp_all add: effect_cleanup_def)

lemma effect_cleanup_pending:
  assumes inv: "typing_inv v"
  shows "pending (effect_cleanup v) = []"
proof -
  have "fst t \<in> ran (typingTimeoutRef v)" if "t \<in> set (pending v)" for t
  proof -
    obtain h due a where t: "t = (h, due, a)"
      by (cases t) auto
    with that have "\<exists>due. (h, due, a) \<in> set (pending v)" by blast
    with inv have "typingTimeoutRef v a = Some h"
      by (simp add: typing_inv_def)
    then show ?thesis
      by (auto simp add: ran_def t)
  qed
  then show ?thesis
    by (simp add: effect_cleanup_def filter_empty_conv)
qed

lemma elapse_no_timers:
  "pending v = [] \<Longrightarrow> typingUsers (elapse d v) = typingUsers v \<and> pending (elapse d v) = []"
  by (simp add: elapse_def due_timers_def)

text \<open>
  After the cleanup no timer is left, so the users shown as typing stay shown however
  much time passes, until a further event of the chat or a change of chat.
\<close>

lemma cleanup_keeps_typing_users:
  "typingUsers (elapse d (effect_cleanup (typing_run sel tr))) = typingUsers (typing_run sel tr)"
proof -
  have "pending (effect_cleanup (typing_run sel tr)) = []"
    by (rule effect_cleanup_pending [OF typing_inv_run])
  from elapse_no_timers [OF this, of d] show ?thesis
    by (simp add: effect_cleanup_fields)
qed

text \<open>
  Claim C5 fails when the effect is set up again while a user is shown. User \<open>u1\<close>
  signals typing in the open chat \<open>c1\<close>; three seconds later the effect is cleaned up
  and subscribes again, as it does when \<open>user\<close> changes (line 322). The cleanup has
  cleared the timer of \<open>u1\<close> and emptied the map, and has left \<open>u1\<close> in
  \<open>typingUsers\<close>: with no further signal \<open>u1\<close> is still shown a minute later,
  63 seconds after the typing signal. Selecting a chat, the other way to run the
  cleanup, empties \<open>typingUsers\<close>.
\<close>

theorem C5_cleanup_leaves_user_typing:
  "typingUsers (typing_run (Some ''c1'') ex_trace) = {''u1''} \<and>
   pending (typing_run (Some ''c1'') ex_trace) = [(1, 5000, ''u1'')] \<and>
   pending (effect_cleanup (typing_run (Some ''c1'') ex_trace)) = [] \<and>
   typingTimeoutRef (effect_cleanup (typing_run (Some ''c1'') ex_trace)) ''u1'' = None \<and>
   typingUsers (effect_cleanup (typing_run (Some ''c1'') ex_trace)) = {''u1''} \<and>
   typingUsers (elapse 60000 (effect_cleanup (typing_run (Some ''c1'') ex_trace))) = {''u1''} \<and>
   clock (elapse 60000 (effect_cleanup (typing_run (Some ''c1'') ex_trace))) = 63000 \<and>
   typingUsers (handleChatSelect_typing (effect_cleanup (typing_run (Some ''c1'') ex_trace))) = {}"
  by (simp add: ex_trace_run effect_cleanup_def elapse_def due_timers_def handleChatSelect_typing_def)

section \<open>Properties of the REST message routes\<close>

lemma ex_valid: "isValidObjectId ex_env ex_msg_upper" "isValidObjectId ex_env ex_chat"
  "isValidObjectId ex_env ex_alice" "isValidObjectId ex_env ex_bob"
  by (simp_all add: ex_env_def hex24_def ex_msg_upper_def ex_chat_def ex_alice_def ex_bob_def)

lemma ex_casts:
  "castObjectId ex_env ex_msg_upper = ObjectId ex_msg"
  "castObjectId ex_env ex_chat = ObjectId ex_chat"
  "castObjectId ex_env ex_alice = ObjectId ex_alice"
  "castObjectId ex_env ex_bob = ObjectId ex_bob"
  by (simp_all add: ex_env_def ex_cast_def lower_hex_def ex_msg_upper_def ex_msg_def ex_chat_def
      ex_alice_def ex_bob_def)

lemma ex_trim: "js_trim ex_edit = ex_edited"
  by (simp add: js_trim_def is_ws_def ex_edit_def ex_edited_def)

lemma ex_trim_nbsp: "js_trim [0x00A0] = []"
  by (simp add: js_trim_def is_ws_def)

lemma ex_find: "findMessageById (ObjectId ex_msg) ex_db = Some ex_stored"
  by (simp add: findMessageById_def ex_db_def ex_stored_def)

lemma ex_find_chat: "findChatById (ObjectId ex_chat) ex_db = Some ex_chat_doc"
  by (simp add: findChatById_def ex_db_def ex_chat_doc_def)

lemma ex_ids: "ObjectId ex_alice \<noteq> ObjectId ex_bob"
  by (simp add: ex_alice_def ex_bob_def)

lemma find_id: "find (\<lambda>x. m_id x = i) xs = Some m \<Longrightarrow> m_id m = i"
  by (induction xs) (auto split: if_splits)

lemma findMessageById_id: "findMessageById i d = Some m \<Longrightarrow> m_id m = i"
  unfolding findMessageById_def by (rule find_id)

lemma find_after_save:
  "find (\<lambda>x. m_id x = i) xs = Some m \<Longrightarrow> m_id m' = i \<Longrightarrow>
     find (\<lambda>x. m_id x = i) (map (\<lambda>x. if m_id x = i then m' else x) xs) = Some m'"
  by (induction xs) (auto split: if_splits)

lemma findMessageById_saveMessage:
  "findMessageById i d = Some m \<Longrightarrow> m_id m' = i \<Longrightarrow> findMessageById i (saveMessage m' d) = Some m'"
  by (simp add: findMessageById_def saveMessage_def find_after_save)

lemma findMessageById_deleted: "findMessageById i (deleteMessageById i d) = None"
  by (simp add: findMessageById_def deleteMessageById_def find_None_iff)

lemma js_trim_Nil: "js_trim [] = []"
  by (simp add: js_trim_def)

lemma patch_message_checked:
  assumes "isValidObjectId e i" "c = Some (JStr raw)" "raw \<noteq> []" "js_trim raw \<noteq> []"
    "\<not> length (js_trim raw) > 5000" "findMessageById (castObjectId e i) d = Some m"
    "m_id m = castObjectId e i" "isValidObjectId e u"
  shows "patch_message e d u i c =
     (if m_senderId m \<noteq> castObjectId e u
        then throw d (Forbidden ''You can only edit your own messages'')
      else if now e - m_timestamp m > fifteenMinutesInMs
        then throw d (Forbidden ''Messages can only be edited within 15 minutes of sending'')
      else \<lparr>answer = Inr (MessageUpdated (m_id m) (js_trim raw) (Some (now_later e))),
            db_after = saveMessage (m\<lparr>m_content := js_trim raw, m_editedAt := Some (now_later e)\<rparr>) d,
            effects = [Wrote (SaveMessage (m\<lparr>m_content := js_trim raw, m_editedAt := Some (now_later e)\<rparr>))]
              @ broadcast e (BroadcastEditedMessage (oid_toString (m_id m)) (oid_toString (m_chatId m))
                   (js_trim raw) (toISOString e (now_later e)))\<rparr>)"
  unfolding patch_message_def
  apply (simp only: assms not_True_eq_False if_False option.case json.case Let_def)
  apply (simp add: assms(7))
  done

lemma patch_message_valid:
  assumes v: "isValidObjectId e i" "c = Some (JStr raw)" "js_trim raw \<noteq> []"
    "length (js_trim raw) \<le> 5000" "findMessageById (castObjectId e i) d = Some m"
    and caller: "isValidObjectId e u"
  shows "patch_message e d u i c =
     (if m_senderId m \<noteq> castObjectId e u
        then throw d (Forbidden ''You can only edit your own messages'')
      else if now e - m_timestamp m > fifteenMinutesInMs
        then throw d (Forbidden ''Messages can only be edited within 15 minutes of sending'')
      else \<lparr>answer = Inr (MessageUpdated (m_id m) (js_trim raw) (Some (now_later e))),
            db_after = saveMessage (m\<lparr>m_content := js_trim raw, m_editedAt := Some (now_later e)\<rparr>) d,
            effects = [Wrote (SaveMessage (m\<lparr>m_content := js_trim raw, m_editedAt := Some (now_later e)\<rparr>))]
              @ broadcast e (BroadcastEditedMessage (oid_toString (m_id m)) (oid_toString (m_chatId m))
                   (js_trim raw) (toISOString e (now_later e)))\<rparr>)"
proof -
  have ne: "raw \<noteq> []"
  proof
    assume "raw = []"
    then have "js_trim raw = []" by (simp only: js_trim_Nil)
    with v(3) show False by simp
  qed
  have len: "\<not> length (js_trim raw) > 5000"
    using v(4) by (simp only: not_less)
  have id: "m_id m = castObjectId e i"
    using v(5) by (rule findMessageById_id)
  show ?thesis
    by (rule patch_message_checked [OF v(1) v(2) ne v(3) len v(5) id caller])
qed

lemma patch_message_throws_or_valid:
  "(\<exists>err. patch_message e d u i c = throw d err) \<or>
   (\<exists>raw m. isValidObjectId e i \<and> c = Some (JStr raw) \<and> js_trim raw \<noteq> [] \<and>
      length (js_trim raw) \<le> 5000 \<and> findMessageById (castObjectId e i) d = Some m \<and>
      isValidObjectId e u)"
proof (cases "isValidObjectId e u \<and> isValidObjectId e i")
  case False
  then show ?thesis by (auto simp add: patch_message_def)
next
  case valid: True
  show ?thesis
  proof (cases c)
    case None
    with valid show ?thesis by (auto simp add: patch_message_def)
  next
    case (Some j)
    show ?thesis
    proof (cases j)
      case JNull
      with valid Some show ?thesis by (auto simp add: patch_message_def)
    next
      case (JBool b)
      with valid Some show ?thesis by (auto simp add: patch_message_def)
    next
      case (JNum n)
      with valid Some show ?thesis by (auto simp add: patch_message_def)
    next
      case JOther
      with valid Some show ?thesis by (auto simp add: patch_message_def)
    next
      case (JStr raw)
      show ?thesis
      proof (cases "raw = [] \<or> js_trim raw = [] \<or> length (js_trim raw) > 5000")
        case True
        with valid Some JStr show ?thesis
          by (auto simp add: patch_message_def)
      next
        case ok: False
        show ?thesis
        proof (cases "findMessageById (castObjectId e i) d")
          case None
          with valid Some JStr ok show ?thesis by (auto simp add: patch_message_def)
        next
          case found: (Some m)
          with valid Some JStr ok show ?thesis by simp
        qed
      qed
    qed
  qed
qed

lemma patch_message_failure:
  assumes bad: "answer (patch_message e d u i c) = Inl err"
  shows "db_after (patch_message e d u i c) = d \<and> effects (patch_message e d u i c) = []"
proof -
  from patch_message_throws_or_valid [of e d u i c]
  consider err' where "patch_message e d u i c = throw d err'"
    | raw m where "isValidObjectId e i" "c = Some (JStr raw)" "js_trim raw \<noteq> []"
        "length (js_trim raw) \<le> 5000" "findMessageById (castObjectId e i) d = Some m"
        "isValidObjectId e u"
    by blast
  then show ?thesis
  proof cases
    case 1
    then show ?thesis by (simp add: throw_def)
  next
    case 2
    note eq = patch_message_valid [OF 2]
    show ?thesis
    proof (cases "m_senderId m \<noteq> castObjectId e u \<or> now e - m_timestamp m > fifteenMinutesInMs")
      case True
      then show ?thesis by (auto simp add: eq throw_def)
    next
      case False
      with bad show ?thesis by (simp add: eq)
    qed
  qed
qed

lemma patch_message_success:
  assumes ok: "answer (patch_message e d u i c) = Inr resp"
  shows "\<exists>m raw. isValidObjectId e i \<and> c = Some (JStr raw) \<and> js_trim raw \<noteq> [] \<and>
           length (js_trim raw) \<le> 5000 \<and> findMessageById (castObjectId e i) d = Some m \<and>
           isValidObjectId e u \<and> m_senderId m = castObjectId e u \<and> now e - m_timestamp m \<le> fifteenMinutesInMs"
proof -
  from patch_message_throws_or_valid [of e d u i c]
  consider err' where "patch_message e d u i c = throw d err'"
    | raw m where "isValidObjectId e i" "c = Some (JStr raw)" "js_trim raw \<noteq> []"
        "length (js_trim raw) \<le> 5000" "findMessageById (castObjectId e i) d = Some m"
        "isValidObjectId e u"
    by blast
  then show ?thesis
  proof cases
    case 1
    with ok show ?thesis by (simp add: throw_def)
  next
    case 2
    note eq = patch_message_valid [OF 2]
    have "m_senderId m = castObjectId e u \<and> now e - m_timestamp m \<le> fifteenMinutesInMs"
    proof (rule ccontr)
      assume "\<not> (m_senderId m = castObjectId e u \<and> now e - m_timestamp m \<le> fifteenMinutesInMs)"
      then have "m_senderId m \<noteq> castObjectId e u \<or> now e - m_timestamp m > fifteenMinutesInMs"
        by auto
      then have "\<exists>err'. patch_message e d u i c = throw d err'"
        by (auto simp add: eq)
      with ok show False by (auto simp add: throw_def)
    qed
    with 2 show ?thesis by blast
  qed
qed

text \<open>
  Claim C6. The edit route succeeds only when the caller is the sender of the stored
  message and the message is at most fifteen minutes old; it then stores the trimmed
  content and \<open>editedAt\<close>, and with the socket handler registered broadcasts one
  \<open>message:edited\<close> carrying the message id and the chat id of the stored message,
  the content and \<open>editedAt\<close>. Whenever it fails the database is unchanged and
  nothing is broadcast. For a request of a caller whose id is an object id, that passes
  validation and names a stored message, it succeeds when the caller is the sender and
  the message is at most fifteen minutes old, and fails with Forbidden otherwise.
\<close>

theorem C6_edit_message:
  "(\<forall>resp. answer (patch_message e d u i c) = Inr resp \<longrightarrow>
      (\<exists>m raw. findMessageById (castObjectId e i) d = Some m \<and> c = Some (JStr raw) \<and>
         m_senderId m = castObjectId e u \<and> now e - m_timestamp m \<le> fifteenMinutesInMs \<and>
         resp = MessageUpdated (m_id m) (js_trim raw) (Some (now_later e)) \<and>
         findMessageById (castObjectId e i) (db_after (patch_message e d u i c))
           = Some (m\<lparr>m_content := js_trim raw, m_editedAt := Some (now_later e)\<rparr>) \<and>
         broadcasts (patch_message e d u i c)
           = (if socketHandler e
              then [BroadcastEditedMessage (oid_toString (m_id m)) (oid_toString (m_chatId m))
                      (js_trim raw) (toISOString e (now_later e))]
              else []))) \<and>
   (\<forall>err. answer (patch_message e d u i c) = Inl err \<longrightarrow>
      db_after (patch_message e d u i c) = d \<and> effects (patch_message e d u i c) = []) \<and>
   (\<forall>m raw. isValidObjectId e u \<and> isValidObjectId e i \<and> c = Some (JStr raw) \<and>
       js_trim raw \<noteq> [] \<and> length (js_trim raw) \<le> 5000 \<and>
       findMessageById (castObjectId e i) d = Some m \<longrightarrow>
       (if m_senderId m = castObjectId e u \<and> now e - m_timestamp m \<le> fifteenMinutesInMs
        then \<exists>resp. answer (patch_message e d u i c) = Inr resp
        else (\<exists>why. answer (patch_message e d u i c) = Inl (Forbidden why)) \<and>
             db_after (patch_message e d u i c) = d))"
proof (intro conjI allI impI)
  fix resp
  assume ok: "answer (patch_message e d u i c) = Inr resp"
  from patch_message_success [OF ok]
  obtain m raw where v: "isValidObjectId e i" "c = Some (JStr raw)" "js_trim raw \<noteq> []"
      "length (js_trim raw) \<le> 5000" "findMessageById (castObjectId e i) d = Some m"
    and caller: "isValidObjectId e u"
    and own: "m_senderId m = castObjectId e u" and young: "now e - m_timestamp m \<le> fifteenMinutesInMs"
    by blast
  let ?edited = "m\<lparr>m_content := js_trim raw, m_editedAt := Some (now_later e)\<rparr>"
  have eq: "patch_message e d u i c =
      \<lparr>answer = Inr (MessageUpdated (m_id m) (js_trim raw) (Some (now_later e))),
       db_after = saveMessage ?edited d,
       effects = [Wrote (SaveMessage ?edited)]
         @ broadcast e (BroadcastEditedMessage (oid_toString (m_id m)) (oid_toString (m_chatId m))
              (js_trim raw) (toISOString e (now_later e)))\<rparr>"
    using patch_message_valid [OF v caller] own young by simp
  have r: "resp = MessageUpdated (m_id m) (js_trim raw) (Some (now_later e))"
    using ok eq by simp
  have id: "m_id ?edited = castObjectId e i"
    using findMessageById_id [OF v(5)] by simp
  have stored: "findMessageById (castObjectId e i) (db_after (patch_message e d u i c)) = Some ?edited"
    using findMessageById_saveMessage [OF v(5) id] eq by simp
  have sent: "broadcasts (patch_message e d u i c)
      = (if socketHandler e
         then [BroadcastEditedMessage (oid_toString (m_id m)) (oid_toString (m_chatId m))
                 (js_trim raw) (toISOString e (now_later e))]
         else [])"
    by (simp add: eq broadcasts_def broadcast_def)
  from v(5) v(2) own young r stored sent
  show "\<exists>m raw. findMessageById (castObjectId e i) d = Some m \<and> c = Some (JStr raw) \<and>
         m_senderId m = castObjectId e u \<and> now e - m_timestamp m \<le> fifteenMinutesInMs \<and>
         resp = MessageUpdated (m_id m) (js_trim raw) (Some (now_later e)) \<and>
         findMessageById (castObjectId e i) (db_after (patch_message e d u i c))
           = Some (m\<lparr>m_content := js_trim raw, m_editedAt := Some (now_later e)\<rparr>) \<and>
         broadcasts (patch_message e d u i c)
           = (if socketHandler e
              then [BroadcastEditedMessage (oid_toString (m_id m)) (oid_toString (m_chatId m))
                      (js_trim raw) (toISOString e (now_later e))]
              else [])"
    by blast
next
  fix err
  assume "answer (patch_message e d u i c) = Inl err"
  then show "db_after (patch_message e d u i c) = d"
    by (simp add: patch_message_failure)
next
  fix err
  assume "answer (patch_message e d u i c) = Inl err"
  then show "effects (patch_message e d u i c) = []"
    by (simp add: patch_message_failure)
next
  fix m raw
  assume "isValidObjectId e u \<and> isValidObjectId e i \<and> c = Some (JStr raw) \<and>
       js_trim raw \<noteq> [] \<and> length (js_trim raw) \<le> 5000 \<and>
       findMessageById (castObjectId e i) d = Some m"
  then have v: "isValidObjectId e i" "c = Some (JStr raw)" "js_trim raw \<noteq> []"
      "length (js_trim raw) \<le> 5000" "findMessageById (castObjectId e i) d = Some m"
    and caller: "isValidObjectId e u"
    by simp_all
  show "if m_senderId m = castObjectId e u \<and> now e - m_timestamp m \<le> fifteenMinutesInMs
        then \<exists>resp. answer (patch_message e d u i c) = Inr resp
        else (\<exists>why. answer (patch_message e d u i c) = Inl (Forbidden why)) \<and>
             db_after (patch_message e d u i c) = d"
  proof (cases "m_senderId m = castObjectId e u \<and> now e - m_timestamp m \<le> fifteenMinutesInMs")
    case True
    then have "answer (patch_message e d u i c)
        = Inr (MessageUpdated (m_id m) (js_trim raw) (Some (now_later e)))"
      by (simp add: patch_message_valid [OF v caller])
    then have "\<exists>resp. answer (patch_message e d u i c) = Inr resp"
      by blast
    then show ?thesis
      by (subst if_P [OF True])
  next
    case False
    then have "m_senderId m \<noteq> castObjectId e u \<or> now e - m_timestamp m > fifteenMinutesInMs"
      by auto
    then have "patch_message e d u i c = throw d (Forbidden ''You can only edit your own messages'')
        \<or> patch_message e d u i c = throw d (Forbidden ''Messages can only be edited within 15 minutes of sending'')"
      by (auto simp add: patch_message_valid [OF v caller])
    then have "(\<exists>why. answer (patch_message e d u i c) = Inl (Forbidden why)) \<and>
             db_after (patch_message e d u i c) = d"
      by (auto simp add: throw_def)
    then show ?thesis
      by (subst if_not_P [OF False])
  qed
qed


theorem C6_edit_message_witness:
  "answer (patch_message ex_env ex_db ex_alice ex_msg_upper (Some (JStr ex_edit)))
     = Inr (MessageUpdated (ObjectId ex_msg) ex_edited (Some 60001)) \<and>
   findMessageById (ObjectId ex_msg)
       (db_after (patch_message ex_env ex_db ex_alice ex_msg_upper (Some (JStr ex_edit))))
     = Some (ex_stored\<lparr>m_content := ex_edited, m_editedAt := Some 60001\<rparr>) \<and>
   broadcasts (patch_message ex_env ex_db ex_alice ex_msg_upper (Some (JStr ex_edit)))
     = [BroadcastEditedMessage ex_msg ex_chat ex_edited ''ms60001''] \<and>
   (\<exists>why. answer (patch_message ex_env ex_db ex_bob ex_msg_upper (Some (JStr ex_edit)))
      = Inl (Forbidden why)) \<and>
   db_after (patch_message ex_env ex_db ex_bob ex_msg_upper (Some (JStr ex_edit))) = ex_db \<and>
   (\<exists>why. answer (patch_message (ex_env\<lparr>now := 901001\<rparr>) ex_db ex_alice ex_msg_upper
      (Some (JStr ex_edit))) = Inl (Forbidden why))"
proof -
  let ?c = "Some (JStr ex_edit)"
  let ?late = "ex_env\<lparr>now := 901001\<rparr>"
  have tr: "js_trim ex_edit \<noteq> []" "length (js_trim ex_edit) \<le> 5000"
    by (simp_all add: ex_trim ex_edited_def)
  have late_valid: "isValidObjectId ?late ex_msg_upper" "isValidObjectId ?late ex_alice"
    using ex_valid(1) ex_valid(3) by (simp_all add: ex_env_def)
  have late_cast: "castObjectId ?late ex_msg_upper = ObjectId ex_msg"
    "castObjectId ?late ex_alice = ObjectId ex_alice"
    using ex_casts by (simp_all add: ex_env_def)
  have h: "socketHandler ex_env" "now_later ex_env = 60001" "toISOString ex_env 60001 = ''ms60001''"
    by (simp_all add: ex_env_def digit_char_def)
  have own: "m_senderId ex_stored = ObjectId ex_alice" "m_chatId ex_stored = ObjectId ex_chat"
    "m_id ex_stored = ObjectId ex_msg"
    "now ex_env - m_timestamp ex_stored \<le> fifteenMinutesInMs"
    "\<not> now ?late - m_timestamp ex_stored \<le> fifteenMinutesInMs"
    by (simp_all add: ex_stored_def ex_env_def fifteenMinutesInMs_def)
  note a = C6_edit_message [of ex_env ex_db ex_alice ex_msg_upper ?c, unfolded ex_casts]
  note b = C6_edit_message [of ex_env ex_db ex_bob ex_msg_upper ?c, unfolded ex_casts]
  note l = C6_edit_message [of ?late ex_db ex_alice ex_msg_upper ?c, unfolded late_cast]
  from a ex_valid(1) ex_valid(3) tr ex_find own
  obtain resp where ok: "answer (patch_message ex_env ex_db ex_alice ex_msg_upper ?c) = Inr resp"
    by (metis (full_types))
  with a obtain m raw where
    m: "findMessageById (ObjectId ex_msg) ex_db = Some m" "?c = Some (JStr raw)"
      "resp = MessageUpdated (m_id m) (js_trim raw) (Some (now_later ex_env))"
      "findMessageById (ObjectId ex_msg) (db_after (patch_message ex_env ex_db ex_alice ex_msg_upper ?c))
         = Some (m\<lparr>m_content := js_trim raw, m_editedAt := Some (now_later ex_env)\<rparr>)"
      "broadcasts (patch_message ex_env ex_db ex_alice ex_msg_upper ?c)
         = (if socketHandler ex_env
            then [BroadcastEditedMessage (oid_toString (m_id m)) (oid_toString (m_chatId m))
                    (js_trim raw) (toISOString ex_env (now_later ex_env))]
            else [])"
    by blast
  from m(1) ex_find have m_eq: "m = ex_stored" by simp
  from m(2) have raw_eq: "raw = ex_edit" by simp
  have p1: "answer (patch_message ex_env ex_db ex_alice ex_msg_upper ?c)
     = Inr (MessageUpdated (ObjectId ex_msg) ex_edited (Some 60001))"
    using ok m(3) by (simp add: raw_eq m_eq ex_trim h own)
  have p2: "findMessageById (ObjectId ex_msg)
       (db_after (patch_message ex_env ex_db ex_alice ex_msg_upper ?c))
     = Some (ex_stored\<lparr>m_content := ex_edited, m_editedAt := Some 60001\<rparr>)"
    using m(4) by (simp add: raw_eq m_eq ex_trim h)
  have p3: "broadcasts (patch_message ex_env ex_db ex_alice ex_msg_upper ?c)
     = [BroadcastEditedMessage ex_msg ex_chat ex_edited ''ms60001'']"
    using m(5) h(1) by (simp add: raw_eq m_eq ex_trim h own)
  have nb: "m_senderId ex_stored \<noteq> ObjectId ex_bob"
    using ex_ids by (simp add: own)
  from b ex_valid(1) ex_valid(4) tr ex_find nb
  have p4: "(\<exists>why. answer (patch_message ex_env ex_db ex_bob ex_msg_upper ?c) = Inl (Forbidden why)) \<and>
      db_after (patch_message ex_env ex_db ex_bob ex_msg_upper ?c) = ex_db"
    by (metis (full_types))
  from l late_valid tr ex_find own(5)
  have p5: "\<exists>why. answer (patch_message ?late ex_db ex_alice ex_msg_upper ?c) = Inl (Forbidden why)"
    by (metis (full_types))
  from p1 p2 p3 p4 p5 show ?thesis by blast
qed

text \<open>
  A content of NO-BREAK SPACE alone is refused as empty, and nothing is written or
  broadcast.
\<close>

lemma patch_message_nbsp_refused:
  "patch_message ex_env ex_db ex_alice ex_msg_upper (Some (JStr [0x00A0]))
     = throw ex_db (BadRequest ''content cannot be empty'')"
  by (simp add: patch_message_def ex_valid ex_trim_nbsp)

lemma throw_simps:
  "effects (throw d err) = []" "db_after (throw d err) = d" "answer (throw d err) = Inl err"
  by (simp_all add: throw_def)

lemma get_messages_pure:
  "effects (get_messages e d u c l off) = [] \<and> db_after (get_messages e d u c l off) = d"
  by (simp add: get_messages_def Let_def throw_simps split: option.split)

lemma messages_after_create:
  "messages (updateLastMessage i lm (createMessage m d)) = messages d @ [m]"
  by (simp add: updateLastMessage_def createMessage_def)

lemma find_chat_update:
  "find (\<lambda>c. c_id c = i) (map (\<lambda>c. if c_id c = i then c\<lparr>lastMessage := Some lm\<rparr> else c) xs)
     = map_option (\<lambda>c. c\<lparr>lastMessage := Some lm\<rparr>) (find (\<lambda>c. c_id c = i) xs)"
  by (induction xs) auto

lemma findChatById_after_create:
  "findChatById i (updateLastMessage i lm (createMessage m d))
     = map_option (\<lambda>c. c\<lparr>lastMessage := Some lm\<rparr>) (findChatById i d)"
  by (simp add: findChatById_def updateLastMessage_def createMessage_def find_chat_update)

lemma messages_after_delete:
  "messages (deleteMessageById i d) = filter (\<lambda>m. m_id m \<noteq> i) (messages d)"
  by (simp add: deleteMessageById_def)

lemma post_message_throws_or_sends:
  "(\<exists>err. post_message e d u c t md = throw d err) \<or>
   (\<exists>m lm chat cid. c = Some cid \<and> findChatById (castObjectId e cid) d = Some chat \<and>
      post_message e d u c t md =
       \<lparr>answer = Inr (MessageSent m),
        db_after = updateLastMessage (m_chatId m) lm (createMessage m d),
        effects = [Wrote (CreateMessage m), Wrote (UpdateLastMessage (m_chatId m) lm)]
          @ broadcast e (BroadcastNewMessage (oid_toString (m_id m)) (oid_toString (m_chatId m))
               (oid_toString (m_senderId m)) (m_content m) (toISOString e (m_timestamp m)))\<rparr> \<and>
      m_id m = newObjectId e \<and> m_chatId m = castObjectId e cid \<and> m_senderId m = castObjectId e u \<and>
      trimmed_content t = Some (m_content m) \<and> m_media m = md \<and>
      m_editedAt m = None \<and> m_deletedFor m = [] \<and> m_timestamp m = now e \<and>
      lm = \<lparr>lm_content = (if m_content m = [] then media_placeholder else m_content m),
            lm_senderId = castObjectId e u, lm_timestamp = now_later e\<rparr>)"
proof (cases "\<not> isValidObjectId e u \<or> falsy_string c")
  case True
  then show ?thesis by (auto simp add: post_message_def)
next
  case False
  then have given: "isValidObjectId e u \<and> \<not> falsy_string c" by simp
  then obtain cid where c: "c = Some cid"
    by (cases c) (auto simp add: falsy_string_def)
  show ?thesis
  proof (cases "isValidObjectId e cid")
    case False
    with given c show ?thesis by (auto simp add: post_message_def)
  next
    case valid: True
    show ?thesis
    proof (cases "trimmed_content t")
      case None
      with given c valid show ?thesis by (auto simp add: post_message_def)
    next
      case tc: (Some tc)
      show ?thesis
      proof (cases "(tc = [] \<and> md = None) \<or> (tc \<noteq> [] \<and> length tc > 5000)")
        case True
        with given c valid tc show ?thesis
          by (auto simp add: post_message_def Let_def)
      next
        case content_ok: False
        show ?thesis
        proof (cases "case md of None \<Rightarrow> None | Some x \<Rightarrow> media_error x")
          case (Some err)
          with given c valid tc content_ok show ?thesis
            by (auto simp add: post_message_def Let_def)
        next
          case media_ok: None
          show ?thesis
          proof (cases "findChatById (castObjectId e cid) d")
            case None
            with given c valid tc content_ok media_ok show ?thesis
              by (auto simp add: post_message_def Let_def)
          next
            case (Some chat)
            show ?thesis
            proof (cases "castObjectId e u \<in> set (participants chat)")
              case False
              with given c valid tc content_ok media_ok Some show ?thesis
                by (auto simp add: post_message_def Let_def)
            next
              case True
              let ?m = "\<lparr>m_id = newObjectId e, m_chatId = castObjectId e cid,
                          m_senderId = castObjectId e u, m_content = tc,
                          m_media = md, m_editedAt = None, m_deletedFor = [],
                          m_timestamp = now e\<rparr>"
              let ?lm = "\<lparr>lm_content = (if tc = [] then media_placeholder else tc),
                          lm_senderId = castObjectId e u, lm_timestamp = now_later e\<rparr>"
              have "post_message e d u c t md =
                 \<lparr>answer = Inr (MessageSent ?m),
                  db_after = updateLastMessage (m_chatId ?m) ?lm (createMessage ?m d),
                  effects = [Wrote (CreateMessage ?m), Wrote (UpdateLastMessage (m_chatId ?m) ?lm)]
                    @ broadcast e (BroadcastNewMessage (oid_toString (m_id ?m))
                         (oid_toString (m_chatId ?m)) (oid_toString (m_senderId ?m))
                         (m_content ?m) (toISOString e (m_timestamp ?m)))\<rparr>"
                using given c valid tc content_ok media_ok Some True
                by (auto simp add: post_message_def Let_def)
              moreover have "m_id ?m = newObjectId e \<and> m_chatId ?m = castObjectId e cid \<and>
                  m_senderId ?m = castObjectId e u \<and>
                  trimmed_content t = Some (m_content ?m) \<and> m_media ?m = md \<and>
                  m_editedAt ?m = None \<and> m_deletedFor ?m = [] \<and> m_timestamp ?m = now e \<and>
                  ?lm = \<lparr>lm_content = (if m_content ?m = [] then media_placeholder else m_content ?m),
                         lm_senderId = castObjectId e u, lm_timestamp = now_later e\<rparr>"
                using tc by simp
              ultimately show ?thesis using c Some by blast
            qed
          qed
        qed
      qed
    qed
  qed
qed

lemma delete_message_cases:
  "(\<exists>err. delete_message e d u i fa = throw d err) \<or>
   (\<exists>m. findMessageById (castObjectId e i) d = Some m \<and>
      (if fa = Some ''true''
       then delete_message e d u i fa =
              \<lparr>answer = Inr MessageDeleted, db_after = deleteMessageById (castObjectId e i) d,
               effects = [Wrote (DeleteMessage (castObjectId e i))]
                 @ broadcast e (BroadcastDeletedMessage i (oid_toString (m_chatId m)))\<rparr> \<and>
            m_senderId m = castObjectId e u \<and> now e - m_timestamp m \<le> twentyFourHoursInMs
       else (castObjectId e u \<in> set (m_deletedFor m) \<and>
             delete_message e d u i fa = \<lparr>answer = Inr MessageDeleted, db_after = d, effects = []\<rparr>) \<or>
            (castObjectId e u \<notin> set (m_deletedFor m) \<and>
             delete_message e d u i fa =
              \<lparr>answer = Inr MessageDeleted,
               db_after = saveMessage (m\<lparr>m_deletedFor := m_deletedFor m @ [castObjectId e u]\<rparr>) d,
               effects = [Wrote (SaveMessage (m\<lparr>m_deletedFor := m_deletedFor m @ [castObjectId e u]\<rparr>))]\<rparr>)))"
proof (cases "isValidObjectId e u \<and> isValidObjectId e i")
  case False
  then show ?thesis by (auto simp add: delete_message_def)
next
  case valid: True
  show ?thesis
  proof (cases "findMessageById (castObjectId e i) d")
    case None
    with valid show ?thesis by (auto simp add: delete_message_def)
  next
    case found: (Some m)
    show ?thesis
    proof (cases "findChatById (m_chatId m) d")
      case None
      with valid found show ?thesis by (auto simp add: delete_message_def)
    next
      case (Some chat)
      show ?thesis
      proof (cases "castObjectId e u \<in> set (participants chat)")
        case False
        with valid found Some show ?thesis by (auto simp add: delete_message_def)
      next
        case member: True
        show ?thesis
        proof (cases "fa = Some ''true''")
          case hard: True
          show ?thesis
          proof (cases "m_senderId m \<noteq> castObjectId e u \<or> now e - m_timestamp m > twentyFourHoursInMs")
            case True
            with valid found Some member hard show ?thesis
              by (auto simp add: delete_message_def)
          next
            case False
            with valid found Some member hard show ?thesis
              by (simp add: delete_message_def)
          qed
        next
          case soft: False
          with valid found Some member show ?thesis
            by (simp add: delete_message_def Let_def)
        qed
      qed
    qed
  qed
qed

text \<open>
  Claim C9. A successful create appends the message to the collection and sets the
  chat's last message, and then broadcasts one \<open>message:new\<close> with the id, chat,
  sender, content and timestamp of the stored message; a successful edit saves the
  message and then broadcasts one \<open>message:edited\<close> with id, chat, content and
  \<open>editedAt\<close>; a successful delete with \<open>forAll=true\<close> removes the message from
  the collection and then broadcasts one \<open>message:deleted\<close> with the id of the
  request and the chat. Each broadcast is made when the socket handler is registered. A
  delete without \<open>forAll=true\<close> adds the caller to \<open>deletedFor\<close> when not yet there
  and broadcasts nothing, the list route does nothing but answer, and a request that
  fails does nothing at all.
\<close>

theorem C9_three_broadcast_points:
  "(\<forall>r. answer (route e d u (PostMessage c t md)) = Inr r \<longrightarrow>
      (\<exists>m lm chat. r = MessageSent m \<and>
         m_id m = newObjectId e \<and> m_senderId m = castObjectId e u \<and>
         trimmed_content t = Some (m_content m) \<and> m_timestamp m = now e \<and>
         lm = \<lparr>lm_content = (if m_content m = [] then media_placeholder else m_content m),
               lm_senderId = castObjectId e u, lm_timestamp = now_later e\<rparr> \<and>
         messages (db_after (route e d u (PostMessage c t md))) = messages d @ [m] \<and>
         findChatById (m_chatId m) d = Some chat \<and>
         findChatById (m_chatId m) (db_after (route e d u (PostMessage c t md)))
           = Some (chat\<lparr>lastMessage := Some lm\<rparr>) \<and>
         effects (route e d u (PostMessage c t md)) =
           [Wrote (CreateMessage m), Wrote (UpdateLastMessage (m_chatId m) lm)]
           @ (if socketHandler e
              then [Broadcast (BroadcastNewMessage (oid_toString (m_id m)) (oid_toString (m_chatId m))
                      (oid_toString (m_senderId m)) (m_content m) (toISOString e (m_timestamp m)))]
              else []))) \<and>
   (\<forall>r. answer (route e d u (PatchMessage i j)) = Inr r \<longrightarrow>
      (\<exists>m raw. findMessageById (castObjectId e i) d = Some m \<and> j = Some (JStr raw) \<and>
         findMessageById (castObjectId e i) (db_after (route e d u (PatchMessage i j)))
           = Some (m\<lparr>m_content := js_trim raw, m_editedAt := Some (now_later e)\<rparr>) \<and>
         effects (route e d u (PatchMessage i j)) =
           [Wrote (SaveMessage (m\<lparr>m_content := js_trim raw, m_editedAt := Some (now_later e)\<rparr>))]
           @ (if socketHandler e
              then [Broadcast (BroadcastEditedMessage (oid_toString (m_id m)) (oid_toString (m_chatId m))
                      (js_trim raw) (toISOString e (now_later e)))]
              else []))) \<and>
   (\<forall>r. answer (route e d u (DeleteMessageReq i (Some ''true''))) = Inr r \<longrightarrow>
      (\<exists>m. findMessageById (castObjectId e i) d = Some m \<and>
         messages (db_after (route e d u (DeleteMessageReq i (Some ''true''))))
           = filter (\<lambda>x. m_id x \<noteq> m_id m) (messages d) \<and>
         findMessageById (castObjectId e i) (db_after (route e d u (DeleteMessageReq i (Some ''true''))))
           = None \<and>
         effects (route e d u (DeleteMessageReq i (Some ''true''))) =
           [Wrote (DeleteMessage (m_id m))]
           @ (if socketHandler e
              then [Broadcast (BroadcastDeletedMessage i (oid_toString (m_chatId m)))]
              else []))) \<and>
   (fa \<noteq> Some ''true'' \<longrightarrow>
      broadcasts (route e d u (DeleteMessageReq i fa)) = [] \<and>
      (\<forall>r. answer (route e d u (DeleteMessageReq i fa)) = Inr r \<longrightarrow>
         (\<exists>m. findMessageById (castObjectId e i) d = Some m \<and>
            findMessageById (castObjectId e i) (db_after (route e d u (DeleteMessageReq i fa)))
              = Some (if castObjectId e u \<in> set (m_deletedFor m) then m
                      else m\<lparr>m_deletedFor := m_deletedFor m @ [castObjectId e u]\<rparr>)))) \<and>
   effects (route e d u (GetMessages c l off)) = [] \<and>
   db_after (route e d u (GetMessages c l off)) = d \<and>
   (\<forall>err. answer (route e d u req) = Inl err \<longrightarrow>
      effects (route e d u req) = [] \<and> db_after (route e d u req) = d)"
proof (intro conjI allI impI)
  fix r
  assume ok: "answer (route e d u (PostMessage c t md)) = Inr r"
  then have "\<not> (\<exists>err. post_message e d u c t md = throw d err)"
    by (auto simp add: throw_simps)
  with post_message_throws_or_sends [of e d u c t md]
  obtain m lm chat cid where chat: "findChatById (castObjectId e cid) d = Some chat"
    and eq: "post_message e d u c t md =
       \<lparr>answer = Inr (MessageSent m),
        db_after = updateLastMessage (m_chatId m) lm (createMessage m d),
        effects = [Wrote (CreateMessage m), Wrote (UpdateLastMessage (m_chatId m) lm)]
          @ broadcast e (BroadcastNewMessage (oid_toString (m_id m)) (oid_toString (m_chatId m))
               (oid_toString (m_senderId m)) (m_content m) (toISOString e (m_timestamp m)))\<rparr>"
    and f: "m_id m = newObjectId e" "m_chatId m = castObjectId e cid"
      "m_senderId m = castObjectId e u" "trimmed_content t = Some (m_content m)"
      "m_timestamp m = now e"
    and lm: "lm = \<lparr>lm_content = (if m_content m = [] then media_placeholder else m_content m),
            lm_senderId = castObjectId e u, lm_timestamp = now_later e\<rparr>"
    by blast
  from ok eq have r: "r = MessageSent m" by simp
  have db: "db_after (route e d u (PostMessage c t md))
      = updateLastMessage (m_chatId m) lm (createMessage m d)"
    using eq by simp
  have ms: "messages (db_after (route e d u (PostMessage c t md))) = messages d @ [m]"
    unfolding db by (rule messages_after_create)
  have ch0: "findChatById (m_chatId m) d = Some chat"
    using chat f(2) by simp
  have ch: "findChatById (m_chatId m) (db_after (route e d u (PostMessage c t md)))
           = Some (chat\<lparr>lastMessage := Some lm\<rparr>)"
    unfolding db by (simp add: findChatById_after_create ch0)
  have ef: "effects (route e d u (PostMessage c t md)) =
           [Wrote (CreateMessage m), Wrote (UpdateLastMessage (m_chatId m) lm)]
           @ (if socketHandler e
              then [Broadcast (BroadcastNewMessage (oid_toString (m_id m)) (oid_toString (m_chatId m))
                      (oid_toString (m_senderId m)) (m_content m) (toISOString e (m_timestamp m)))]
              else [])"
    using eq by (simp add: broadcast_def)
  from r f(1) f(3) f(4) f(5) lm ms ch0 ch ef
  show "\<exists>m lm chat. r = MessageSent m \<and>
         m_id m = newObjectId e \<and> m_senderId m = castObjectId e u \<and>
         trimmed_content t = Some (m_content m) \<and> m_timestamp m = now e \<and>
         lm = \<lparr>lm_content = (if m_content m = [] then media_placeholder else m_content m),
               lm_senderId = castObjectId e u, lm_timestamp = now_later e\<rparr> \<and>
         messages (db_after (route e d u (PostMessage c t md))) = messages d @ [m] \<and>
         findChatById (m_chatId m) d = Some chat \<and>
         findChatById (m_chatId m) (db_after (route e d u (PostMessage c t md)))
           = Some (chat\<lparr>lastMessage := Some lm\<rparr>) \<and>
         effects (route e d u (PostMessage c t md)) =
           [Wrote (CreateMessage m), Wrote (UpdateLastMessage (m_chatId m) lm)]
           @ (if socketHandler e
              then [Broadcast (BroadcastNewMessage (oid_toString (m_id m)) (oid_toString (m_chatId m))
                      (oid_toString (m_senderId m)) (m_content m) (toISOString e (m_timestamp m)))]
              else [])"
    by blast
next
  fix r
  assume ok: "answer (route e d u (PatchMessage i j)) = Inr r"
  then have ok': "answer (patch_message e d u i j) = Inr r" by simp
  from patch_message_success [OF ok']
  obtain m0 raw where v: "isValidObjectId e i" "j = Some (JStr raw)" "js_trim raw \<noteq> []"
      "length (js_trim raw) \<le> 5000" "findMessageById (castObjectId e i) d = Some m0"
    and caller: "isValidObjectId e u"
    and own: "m_senderId m0 = castObjectId e u"
    and young: "now e - m_timestamp m0 \<le> fifteenMinutesInMs"
    by blast
  let ?m = "m0\<lparr>m_content := js_trim raw, m_editedAt := Some (now_later e)\<rparr>"
  have id: "m_id ?m = castObjectId e i"
    using findMessageById_id [OF v(5)] by simp
  have eq: "patch_message e d u i j =
      \<lparr>answer = Inr (MessageUpdated (m_id m0) (js_trim raw) (Some (now_later e))),
       db_after = saveMessage ?m d,
       effects = [Wrote (SaveMessage ?m)]
         @ broadcast e (BroadcastEditedMessage (oid_toString (m_id m0)) (oid_toString (m_chatId m0))
              (js_trim raw) (toISOString e (now_later e)))\<rparr>"
    using patch_message_valid [OF v caller] own young by simp
  have stored: "findMessageById (castObjectId e i) (db_after (route e d u (PatchMessage i j))) = Some ?m"
    using findMessageById_saveMessage [OF v(5) id] eq by simp
  have ef: "effects (route e d u (PatchMessage i j)) =
           [Wrote (SaveMessage ?m)]
           @ (if socketHandler e
              then [Broadcast (BroadcastEditedMessage (oid_toString (m_id m0)) (oid_toString (m_chatId m0))
                      (js_trim raw) (toISOString e (now_later e)))]
              else [])"
    using eq by (simp add: broadcast_def)
  from v(5) v(2) stored ef
  show "\<exists>m raw. findMessageById (castObjectId e i) d = Some m \<and> j = Some (JStr raw) \<and>
         findMessageById (castObjectId e i) (db_after (route e d u (PatchMessage i j)))
           = Some (m\<lparr>m_content := js_trim raw, m_editedAt := Some (now_later e)\<rparr>) \<and>
         effects (route e d u (PatchMessage i j)) =
           [Wrote (SaveMessage (m\<lparr>m_content := js_trim raw, m_editedAt := Some (now_later e)\<rparr>))]
           @ (if socketHandler e
              then [Broadcast (BroadcastEditedMessage (oid_toString (m_id m)) (oid_toString (m_chatId m))
                      (js_trim raw) (toISOString e (now_later e)))]
              else [])"
    by blast
next
  fix r
  assume ok: "answer (route e d u (DeleteMessageReq i (Some ''true''))) = Inr r"
  then have "\<not> (\<exists>err. delete_message e d u i (Some ''true'') = throw d err)"
    by (auto simp add: throw_simps)
  with delete_message_cases [of e d u i "Some ''true''"]
  obtain m where m: "findMessageById (castObjectId e i) d = Some m"
    "delete_message e d u i (Some ''true'') =
              \<lparr>answer = Inr MessageDeleted, db_after = deleteMessageById (castObjectId e i) d,
               effects = [Wrote (DeleteMessage (castObjectId e i))]
                 @ broadcast e (BroadcastDeletedMessage i (oid_toString (m_chatId m)))\<rparr>"
    by auto
  have id: "m_id m = castObjectId e i"
    using m(1) by (rule findMessageById_id)
  have db: "db_after (route e d u (DeleteMessageReq i (Some ''true'')))
      = deleteMessageById (castObjectId e i) d"
    using m(2) by simp
  have ms: "messages (db_after (route e d u (DeleteMessageReq i (Some ''true''))))
           = filter (\<lambda>x. m_id x \<noteq> m_id m) (messages d)"
    unfolding db id by (rule messages_after_delete)
  have gone: "findMessageById (castObjectId e i)
      (db_after (route e d u (DeleteMessageReq i (Some ''true'')))) = None"
    unfolding db by (rule findMessageById_deleted)
  have ef: "effects (route e d u (DeleteMessageReq i (Some ''true''))) =
           [Wrote (DeleteMessage (m_id m))]
           @ (if socketHandler e
              then [Broadcast (BroadcastDeletedMessage i (oid_toString (m_chatId m)))]
              else [])"
    using m(2) by (simp add: broadcast_def id)
  from m(1) ms gone ef
  show "\<exists>m. findMessageById (castObjectId e i) d = Some m \<and>
         messages (db_after (route e d u (DeleteMessageReq i (Some ''true''))))
           = filter (\<lambda>x. m_id x \<noteq> m_id m) (messages d) \<and>
         findMessageById (castObjectId e i) (db_after (route e d u (DeleteMessageReq i (Some ''true''))))
           = None \<and>
         effects (route e d u (DeleteMessageReq i (Some ''true''))) =
           [Wrote (DeleteMessage (m_id m))]
           @ (if socketHandler e
              then [Broadcast (BroadcastDeletedMessage i (oid_toString (m_chatId m)))]
              else [])"
    by blast
next
  assume soft: "fa \<noteq> Some ''true''"
  from delete_message_cases [of e d u i fa] soft
  consider err where "delete_message e d u i fa = throw d err"
    | "delete_message e d u i fa = \<lparr>answer = Inr MessageDeleted, db_after = d, effects = []\<rparr>"
    | m where "delete_message e d u i fa =
              \<lparr>answer = Inr MessageDeleted,
               db_after = saveMessage (m\<lparr>m_deletedFor := m_deletedFor m @ [castObjectId e u]\<rparr>) d,
               effects = [Wrote (SaveMessage (m\<lparr>m_deletedFor := m_deletedFor m @ [castObjectId e u]\<rparr>))]\<rparr>"
    by auto
  then show "broadcasts (route e d u (DeleteMessageReq i fa)) = []"
    by cases (simp_all add: broadcasts_def throw_simps)
next
  fix r
  assume soft: "fa \<noteq> Some ''true''"
    and ok: "answer (route e d u (DeleteMessageReq i fa)) = Inr r"
  from ok have "\<not> (\<exists>err. delete_message e d u i fa = throw d err)"
    by (auto simp add: throw_simps)
  with delete_message_cases [of e d u i fa] soft
  obtain m where m: "findMessageById (castObjectId e i) d = Some m"
    and cases: "(castObjectId e u \<in> set (m_deletedFor m) \<and>
             delete_message e d u i fa = \<lparr>answer = Inr MessageDeleted, db_after = d, effects = []\<rparr>) \<or>
            (castObjectId e u \<notin> set (m_deletedFor m) \<and>
             delete_message e d u i fa =
              \<lparr>answer = Inr MessageDeleted,
               db_after = saveMessage (m\<lparr>m_deletedFor := m_deletedFor m @ [castObjectId e u]\<rparr>) d,
               effects = [Wrote (SaveMessage (m\<lparr>m_deletedFor := m_deletedFor m @ [castObjectId e u]\<rparr>))]\<rparr>)"
    by auto
  let ?hidden = "m\<lparr>m_deletedFor := m_deletedFor m @ [castObjectId e u]\<rparr>"
  have id: "m_id ?hidden = castObjectId e i"
    using findMessageById_id [OF m] by simp
  have "findMessageById (castObjectId e i) (db_after (route e d u (DeleteMessageReq i fa)))
      = Some (if castObjectId e u \<in> set (m_deletedFor m) then m else ?hidden)"
  proof (cases "castObjectId e u \<in> set (m_deletedFor m)")
    case True
    with cases have "db_after (delete_message e d u i fa) = d" by auto
    with True m show ?thesis by simp
  next
    case False
    with cases have "db_after (delete_message e d u i fa) = saveMessage ?hidden d" by auto
    with False findMessageById_saveMessage [OF m id] show ?thesis by simp
  qed
  with m show "\<exists>m. findMessageById (castObjectId e i) d = Some m \<and>
            findMessageById (castObjectId e i) (db_after (route e d u (DeleteMessageReq i fa)))
              = Some (if castObjectId e u \<in> set (m_deletedFor m) then m
                      else m\<lparr>m_deletedFor := m_deletedFor m @ [castObjectId e u]\<rparr>)"
    by blast
next
  show "effects (route e d u (GetMessages c l off)) = []"
    by (simp add: get_messages_pure)
next
  show "db_after (route e d u (GetMessages c l off)) = d"
    by (simp add: get_messages_pure)
next
  fix err
  assume bad: "answer (route e d u req) = Inl err"
  have "effects (route e d u req) = [] \<and> db_after (route e d u req) = d"
  proof (cases req)
    case (PostMessage c' t' md')
    with bad post_message_throws_or_sends [of e d u c' t' md'] show ?thesis
      by (auto simp add: throw_simps)
  next
    case (GetMessages c' l' off')
    then show ?thesis by (simp add: get_messages_pure)
  next
    case (PatchMessage i' j')
    with bad show ?thesis by (simp add: patch_message_failure)
  next
    case (DeleteMessageReq i' fa')
    with bad delete_message_cases [of e d u i' fa'] show ?thesis
      by (auto simp add: throw_simps split: if_splits)
  qed
  then show "effects (route e d u req) = []" and "db_after (route e d u req) = d"
    by simp_all
qed

lemma ex_trim_hello: "js_trim ex_hello = m_content ex_new"
  by (simp add: js_trim_def is_ws_def ex_hello_def ex_new_def)

lemma ex_chat_nonempty: "\<not> falsy_string (Some ex_chat)"
  by (simp add: falsy_string_def ex_chat_def)

lemma ex_post:
  "answer (post_message ex_env ex_db ex_alice (Some ex_chat) (Some (JStr ex_hello)) None)
     = Inr (MessageSent ex_new)"
  by (simp add: post_message_def ex_chat_nonempty ex_valid ex_casts trimmed_content_def
        ex_trim_hello ex_find_chat Let_def)
     (simp add: ex_new_def ex_env_def ex_chat_doc_def)

lemma ex_patch_own:
  "answer (patch_message ex_env ex_db ex_alice ex_msg_upper (Some (JStr ex_edit)))
     = Inr (MessageUpdated (ObjectId ex_msg) ex_edited (Some 60001))"
  by (simp add: patch_message_def ex_valid ex_casts ex_trim ex_find Let_def)
     (simp add: ex_edit_def ex_edited_def ex_stored_def ex_env_def fifteenMinutesInMs_def)

lemma ex_delete_hard:
  "answer (delete_message ex_env ex_db ex_alice ex_msg_upper (Some ''true'')) = Inr MessageDeleted"
  by (simp add: delete_message_def ex_valid ex_casts ex_find Let_def)
     (simp add: ex_stored_def ex_find_chat ex_chat_doc_def ex_env_def twentyFourHoursInMs_def)

lemma ex_delete_soft:
  "answer (delete_message ex_env ex_db ex_bob ex_msg_upper None) = Inr MessageDeleted"
  by (simp add: delete_message_def ex_valid ex_casts ex_find Let_def)
     (simp add: ex_stored_def ex_find_chat ex_chat_doc_def Let_def)

theorem C9_three_broadcast_points_witness:
  "broadcasts (route ex_env ex_db ex_alice (PostMessage (Some ex_chat) (Some (JStr ex_hello)) None))
     = [BroadcastNewMessage ''507f1f77bcf86cd799439016'' ex_chat ex_alice (m_content ex_new) ''ms60000''] \<and>
   messages (db_after (route ex_env ex_db ex_alice
       (PostMessage (Some ex_chat) (Some (JStr ex_hello)) None))) = [ex_stored, ex_new] \<and>
   findChatById (ObjectId ex_chat) (db_after (route ex_env ex_db ex_alice
       (PostMessage (Some ex_chat) (Some (JStr ex_hello)) None)))
     = Some (ex_chat_doc\<lparr>lastMessage := Some \<lparr>lm_content = m_content ex_new,
          lm_senderId = ObjectId ex_alice, lm_timestamp = 60001\<rparr>\<rparr>) \<and>
   broadcasts (route ex_env ex_db ex_alice (PatchMessage ex_msg_upper (Some (JStr ex_edit))))
     = [BroadcastEditedMessage ex_msg ex_chat ex_edited ''ms60001''] \<and>
   broadcasts (route ex_env ex_db ex_alice (DeleteMessageReq ex_msg_upper (Some ''true'')))
     = [BroadcastDeletedMessage ex_msg_upper ex_chat] \<and>
   messages (db_after (route ex_env ex_db ex_alice (DeleteMessageReq ex_msg_upper (Some ''true'')))) = [] \<and>
   broadcasts (route ex_env ex_db ex_bob (DeleteMessageReq ex_msg_upper None)) = [] \<and>
   findMessageById (ObjectId ex_msg)
       (db_after (route ex_env ex_db ex_bob (DeleteMessageReq ex_msg_upper None)))
     = Some (ex_stored\<lparr>m_deletedFor := [ObjectId ex_bob]\<rparr>) \<and>
   effects (route ex_env ex_db ex_alice (GetMessages (Some ex_chat) None None)) = [] \<and>
   effects (route ex_env ex_db ex_bob (PatchMessage ex_msg_upper (Some (JStr ex_edit)))) = []"
proof -
  let ?post = "PostMessage (Some ex_chat) (Some (JStr ex_hello)) None"
  let ?patch = "PatchMessage ex_msg_upper (Some (JStr ex_edit))"
  let ?hard = "DeleteMessageReq ex_msg_upper (Some ''true'')"
  let ?soft = "DeleteMessageReq ex_msg_upper None"
  have h: "socketHandler ex_env" "now_later ex_env = 60001" "toISOString ex_env 60001 = ''ms60001''"
    "toISOString ex_env 60000 = ''ms60000''" "now ex_env = 60000"
    by (simp_all add: ex_env_def digit_char_def)
  have st: "m_senderId ex_stored = ObjectId ex_alice" "m_chatId ex_stored = ObjectId ex_chat"
    "m_id ex_stored = ObjectId ex_msg" "m_deletedFor ex_stored = []"
    by (simp_all add: ex_stored_def)
  have nw: "m_id ex_new = ObjectId ''507f1f77bcf86cd799439016''" "m_chatId ex_new = ObjectId ex_chat"
    "m_senderId ex_new = ObjectId ex_alice" "m_timestamp ex_new = 60000" "m_content ex_new \<noteq> []"
    by (simp_all add: ex_new_def)
  note alice = C9_three_broadcast_points [where e = ex_env and d = ex_db and u = ex_alice
      and c = "Some ex_chat" and t = "Some (JStr ex_hello)" and md = None and i = ex_msg_upper
      and j = "Some (JStr ex_edit)" and fa = None and l = None and off = None and req = ?post,
      unfolded ex_casts]
  note bob = C9_three_broadcast_points [where e = ex_env and d = ex_db and u = ex_bob
      and c = "Some ex_chat" and t = None and md = None and i = ex_msg_upper
      and j = "Some (JStr ex_edit)" and fa = None and l = None and off = None and req = ?patch,
      unfolded ex_casts]
  have a1: "answer (route ex_env ex_db ex_alice ?post) = Inr (MessageSent ex_new)"
    by (simp add: ex_post)
  with alice obtain m lm chat where
    m: "MessageSent ex_new = MessageSent m"
       "lm = \<lparr>lm_content = (if m_content m = [] then media_placeholder else m_content m),
               lm_senderId = ObjectId ex_alice, lm_timestamp = now_later ex_env\<rparr>"
       "messages (db_after (route ex_env ex_db ex_alice ?post)) = messages ex_db @ [m]"
       "findChatById (m_chatId m) ex_db = Some chat"
       "findChatById (m_chatId m) (db_after (route ex_env ex_db ex_alice ?post))
           = Some (chat\<lparr>lastMessage := Some lm\<rparr>)"
       "effects (route ex_env ex_db ex_alice ?post) =
           [Wrote (CreateMessage m), Wrote (UpdateLastMessage (m_chatId m) lm)]
           @ (if socketHandler ex_env
              then [Broadcast (BroadcastNewMessage (oid_toString (m_id m)) (oid_toString (m_chatId m))
                      (oid_toString (m_senderId m)) (m_content m) (toISOString ex_env (m_timestamp m)))]
              else [])"
    by blast
  from m(1) have m_eq: "m = ex_new" by simp
  from m(4) ex_find_chat have chat_eq: "chat = ex_chat_doc"
    by (simp add: m_eq nw)
  have p1: "broadcasts (route ex_env ex_db ex_alice ?post)
     = [BroadcastNewMessage ''507f1f77bcf86cd799439016'' ex_chat ex_alice (m_content ex_new) ''ms60000'']"
    unfolding broadcasts_def m(6) by (simp add: m_eq h nw)
  have p2: "messages (db_after (route ex_env ex_db ex_alice ?post)) = [ex_stored, ex_new]"
    using m(3) by (simp add: m_eq ex_db_def)
  have p3: "findChatById (ObjectId ex_chat) (db_after (route ex_env ex_db ex_alice ?post))
     = Some (ex_chat_doc\<lparr>lastMessage := Some \<lparr>lm_content = m_content ex_new,
          lm_senderId = ObjectId ex_alice, lm_timestamp = 60001\<rparr>\<rparr>)"
    using m(5) by (simp add: m(2) m_eq chat_eq nw h)
  have a2: "answer (route ex_env ex_db ex_alice ?patch)
      = Inr (MessageUpdated (ObjectId ex_msg) ex_edited (Some 60001))"
    by (simp add: ex_patch_own)
  with alice obtain m2 raw where
    m2: "findMessageById (ObjectId ex_msg) ex_db = Some m2" "Some (JStr ex_edit) = Some (JStr raw)"
       "effects (route ex_env ex_db ex_alice ?patch) =
           [Wrote (SaveMessage (m2\<lparr>m_content := js_trim raw, m_editedAt := Some (now_later ex_env)\<rparr>))]
           @ (if socketHandler ex_env
              then [Broadcast (BroadcastEditedMessage (oid_toString (m_id m2)) (oid_toString (m_chatId m2))
                      (js_trim raw) (toISOString ex_env (now_later ex_env)))]
              else [])"
    by blast
  from m2(1) ex_find have m2_eq: "m2 = ex_stored" by simp
  from m2(2) have raw_eq: "raw = ex_edit" by simp
  have p4: "broadcasts (route ex_env ex_db ex_alice ?patch)
     = [BroadcastEditedMessage ex_msg ex_chat ex_edited ''ms60001'']"
    unfolding broadcasts_def m2(3) by (simp add: m2_eq raw_eq ex_trim h st)
  have a3: "answer (route ex_env ex_db ex_alice ?hard) = Inr MessageDeleted"
    by (simp add: ex_delete_hard)
  with alice obtain m3 where
    m3: "findMessageById (ObjectId ex_msg) ex_db = Some m3"
       "messages (db_after (route ex_env ex_db ex_alice ?hard))
           = filter (\<lambda>x. m_id x \<noteq> m_id m3) (messages ex_db)"
       "effects (route ex_env ex_db ex_alice ?hard) =
           [Wrote (DeleteMessage (m_id m3))]
           @ (if socketHandler ex_env
              then [Broadcast (BroadcastDeletedMessage ex_msg_upper (oid_toString (m_chatId m3)))]
              else [])"
    by blast
  from m3(1) ex_find have m3_eq: "m3 = ex_stored" by simp
  have p5: "broadcasts (route ex_env ex_db ex_alice ?hard)
     = [BroadcastDeletedMessage ex_msg_upper ex_chat]"
    unfolding broadcasts_def m3(3) by (simp add: m3_eq h st)
  have p6: "messages (db_after (route ex_env ex_db ex_alice ?hard)) = []"
    using m3(2) by (simp add: m3_eq ex_db_def)
  have soft: "(None :: string option) \<noteq> Some ''true''" by simp
  have a4: "answer (route ex_env ex_db ex_bob ?soft) = Inr MessageDeleted"
    by (simp add: ex_delete_soft)
  from bob soft have p7: "broadcasts (route ex_env ex_db ex_bob ?soft) = []"
    by blast
  from bob soft a4 obtain m4 where
    m4: "findMessageById (ObjectId ex_msg) ex_db = Some m4"
      "findMessageById (ObjectId ex_msg) (db_after (route ex_env ex_db ex_bob ?soft))
         = Some (if ObjectId ex_bob \<in> set (m_deletedFor m4) then m4
                 else m4\<lparr>m_deletedFor := m_deletedFor m4 @ [ObjectId ex_bob]\<rparr>)"
    by blast
  from m4(1) ex_find have m4_eq: "m4 = ex_stored" by simp
  have p8: "findMessageById (ObjectId ex_msg) (db_after (route ex_env ex_db ex_bob ?soft))
     = Some (ex_stored\<lparr>m_deletedFor := [ObjectId ex_bob]\<rparr>)"
    using m4(2) by (simp add: m4_eq st)
  from alice have p9: "effects (route ex_env ex_db ex_alice (GetMessages (Some ex_chat) None None)) = []"
    by blast
  have "\<exists>err. answer (route ex_env ex_db ex_bob ?patch) = Inl err"
    by (simp add: patch_message_def ex_valid ex_casts ex_trim ex_find Let_def throw_def)
       (simp add: ex_edit_def ex_edited_def ex_stored_def ex_alice_def ex_bob_def)
  with bob have p10: "effects (route ex_env ex_db ex_bob ?patch) = []"
    by blast
  from p1 p2 p3 p4 p5 p6 p7 p8 p9 p10 show ?thesis by blast
qed

end
